theory Spec2Isabelle
  imports Complex_Main "HOL-Library.Sublist" "HOL-Library.Multiset"
begin

section \<open>Numbers and strings of the host language\<close>

text \<open>
  The exporter (\<^verbatim>\<open>src/app.ts\<close>) is TypeScript on Node. Strings are modelled as
  \<^typ>\<open>string\<close>; a character outside ASCII stands for its UTF-8 bytes, which keeps
  concatenation and substring search as they are on well-formed text. Integers that the
  program computes with stay far below \<open>2^53\<close> and are modelled as \<^typ>\<open>int\<close> or
  \<^typ>\<open>nat\<close>; the value of \<^verbatim>\<open>parseFloat\<close> is an exact rational, so the rounding of
  IEEE doubles is not part of this model.
\<close>

definition digit_char :: "nat \<Rightarrow> char" where
  "digit_char n = ''0123456789'' ! n"

definition is_digit :: "char \<Rightarrow> bool" where
  "is_digit c = (c \<in> set ''0123456789'')"

definition digit_val :: "char \<Rightarrow> int" where
  "digit_val c = of_char c - 48"

text \<open>\<^verbatim>\<open>Number.prototype.toString\<close> on a non-negative integer.\<close>

fun toString :: "nat \<Rightarrow> string" where
  "toString n = (if n < 10 then [digit_char n] else toString (n div 10) @ [digit_char (n mod 10)])"

declare toString.simps [simp del]

text \<open>\<^verbatim>\<open>parseInt\<close> on a string of decimal digits (the captures of a \<^verbatim>\<open>\d\<close> group).\<close>

definition parseInt :: "string \<Rightarrow> int" where
  "parseInt s = foldl (\<lambda>a c. 10 * a + digit_val c) 0 s"

definition padStart :: "string \<Rightarrow> nat \<Rightarrow> char \<Rightarrow> string" where
  "padStart s n c = replicate (n - length s) c @ s"

text \<open>
  date-fns \<^verbatim>\<open>addLeadingZeros(number, targetLength)\<close>: the sign, then the absolute value
  padded with zeros.
\<close>

definition addLeadingZeros :: "int \<Rightarrow> nat \<Rightarrow> string" where
  "addLeadingZeros n len =
     (if n < 0 then ''-'' else '''') @ padStart (toString (nat \<bar>n\<bar>)) len (CHR ''0'')"

text \<open>\<^verbatim>\<open>String.prototype.includes\<close>: the argument occurs as a contiguous substring.\<close>

fun starts_with :: "string \<Rightarrow> string \<Rightarrow> bool" where
  "starts_with s [] = True"
| "starts_with [] (c # sub) = False"
| "starts_with (d # s) (c # sub) = (d = c \<and> starts_with s sub)"

fun str_includes :: "string \<Rightarrow> string \<Rightarrow> bool" where
  "str_includes [] sub = (sub = [])"
| "str_includes (d # s) sub = (starts_with (d # s) sub \<or> str_includes s sub)"

text \<open>\<^verbatim>\<open>String.prototype.split\<close> on a one-character class: empty pieces are kept.\<close>

fun split_on :: "(char \<Rightarrow> bool) \<Rightarrow> string \<Rightarrow> string list" where
  "split_on p [] = [[]]"
| "split_on p (c # s) =
     (if p c then [] # split_on p s
      else (case split_on p s of [] \<Rightarrow> [[c]] | w # ws \<Rightarrow> (c # w) # ws))"

section \<open>Time values\<close>

text \<open>
  A time value is a number of milliseconds since the epoch, as in ECMAScript; the
  day and year arithmetic below is the one of the language standard (Day, DayFromYear,
  YearFromTime, MonthFromTime, DateFromTime, MakeDay). \<^verbatim>\<open>None\<close> stands for the
  Invalid Date. The process is taken to run with its clock in UTC, which is what the
  nine-hour shifts of the source presuppose, so local fields are UTC fields.
\<close>

definition msPerDay :: int where
  "msPerDay = 86400000"

definition msPerHour :: int where
  "msPerHour = 3600000"

definition Day :: "int \<Rightarrow> int" where
  "Day t = t div msPerDay"

definition TimeWithinDay :: "int \<Rightarrow> int" where
  "TimeWithinDay t = t mod msPerDay"

definition DayFromYear :: "int \<Rightarrow> int" where
  "DayFromYear y =
     365 * (y - 1970) + (y - 1969) div 4 - (y - 1901) div 100 + (y - 1601) div 400"

definition InLeapYear :: "int \<Rightarrow> bool" where
  "InLeapYear y = (y mod 4 = 0 \<and> (y mod 100 \<noteq> 0 \<or> y mod 400 = 0))"

lemma div_succ:
  fixes a n :: int
  assumes "0 < n"
  shows "(a + 1) div n = a div n + (if (a + 1) mod n = 0 then 1 else 0)"
proof -
  define q where "q = a div n"
  define r where "r = a mod n"
  have a: "a = n * q + r" and r0: "0 \<le> r" and rn: "r < n"
    using assms by (simp_all add: q_def r_def)
  show ?thesis
  proof (cases "r + 1 = n")
    case True
    then have "a + 1 = n * (q + 1)" using a by (simp add: algebra_simps)
    then have "(a + 1) div n = q + 1" and "(a + 1) mod n = 0"
      using assms by simp_all
    then show ?thesis by (simp add: q_def)
  next
    case False
    then have lt: "r + 1 < n" using rn by simp
    have eq: "a + 1 = n * q + (r + 1)" using a by simp
    have "(a + 1) div n = q"
      by (rule int_div_pos_eq [OF eq]) (use r0 lt in simp_all)
    moreover have "(a + 1) mod n = r + 1"
      by (rule int_mod_pos_eq [OF eq]) (use r0 lt in simp_all)
    ultimately show ?thesis using r0 by (simp add: q_def)
  qed
qed

lemma mod_shift:
  fixes y :: int
  shows "(y - n * k) mod n = y mod n"
  by (metis mod_diff_right_eq mod_mult_self1_is_0 diff_zero)

lemma leap_residues:
  fixes y :: int
  shows "((y - 1968) mod 4 = 0) = (y mod 4 = 0)"
    and "((y - 1900) mod 100 = 0) = (y mod 100 = 0)"
    and "((y - 1600) mod 400 = 0) = (y mod 400 = 0)"
  using mod_shift [of y 4 492] mod_shift [of y 100 19] mod_shift [of y 400 4]
  by simp_all

lemma leap_divides:
  fixes y :: int
  shows "y mod 400 = 0 \<Longrightarrow> y mod 100 = 0"
    and "y mod 100 = 0 \<Longrightarrow> y mod 4 = 0"
proof -
  have "(100::int) dvd 400" and "(4::int) dvd 100" by simp_all
  then show "y mod 400 = 0 \<Longrightarrow> y mod 100 = 0" and "y mod 100 = 0 \<Longrightarrow> y mod 4 = 0"
    by (meson dvd_trans mod_eq_0_iff_dvd)+
qed

lemma DayFromYear_step:
  "DayFromYear (y + 1) = DayFromYear y + (if InLeapYear y then 366 else 365)"
proof -
  have a: "(y - 1968) div 4 = (y - 1969) div 4 + (if y mod 4 = 0 then 1 else 0)"
    using div_succ [of 4 "y - 1969"] leap_residues(1) [of y] by (simp add: algebra_simps)
  have b: "(y - 1900) div 100 = (y - 1901) div 100 + (if y mod 100 = 0 then 1 else 0)"
    using div_succ [of 100 "y - 1901"] leap_residues(2) [of y] by (simp add: algebra_simps)
  have c: "(y - 1600) div 400 = (y - 1601) div 400 + (if y mod 400 = 0 then 1 else 0)"
    using div_succ [of 400 "y - 1601"] leap_residues(3) [of y] by (simp add: algebra_simps)
  have e: "DayFromYear (y + 1) =
      365 * (y - 1969) + (y - 1968) div 4 - (y - 1900) div 100 + (y - 1600) div 400"
    by (simp add: DayFromYear_def)
  consider (n4) "y mod 4 \<noteq> 0" "y mod 100 \<noteq> 0" "y mod 400 \<noteq> 0"
    | (l4) "y mod 4 = 0" "y mod 100 \<noteq> 0" "y mod 400 \<noteq> 0"
    | (c100) "y mod 4 = 0" "y mod 100 = 0" "y mod 400 \<noteq> 0"
    | (c400) "y mod 4 = 0" "y mod 100 = 0" "y mod 400 = 0"
    using leap_divides(1) [of y] leap_divides(2) [of y] by metis
  then show ?thesis
  proof cases
    case n4
    then show ?thesis unfolding e a b c by (simp add: DayFromYear_def InLeapYear_def)
  next
    case l4
    then show ?thesis unfolding e a b c by (simp add: DayFromYear_def InLeapYear_def)
  next
    case c100
    then show ?thesis unfolding e a b c by (simp add: DayFromYear_def InLeapYear_def)
  next
    case c400
    then show ?thesis unfolding e a b c by (simp add: DayFromYear_def InLeapYear_def)
  qed
qed

lemma DayFromYear_less: "DayFromYear y < DayFromYear (y + 1)"
  by (simp add: DayFromYear_step)

text \<open>
  YearFromTime is the largest year whose first day is not after the given day: the
  search starts from a year that is not too late and walks upwards.
\<close>

function year_search :: "int \<Rightarrow> int \<Rightarrow> int" where
  "year_search d y = (if DayFromYear (y + 1) \<le> d then year_search d (y + 1) else y)"
  by pat_completeness auto
termination
proof (relation "measure (\<lambda>(d, y). nat (d + 1 - DayFromYear (y + 1)))")
  show "wf (measure (\<lambda>(d, y). nat (d + 1 - DayFromYear (y + 1))))"
    by simp
next
  fix d y :: int
  assume a: "DayFromYear (y + 1) \<le> d"
  have b: "DayFromYear (y + 1) < DayFromYear (y + 1 + 1)"
    by (rule DayFromYear_less)
  have "nat (d + 1 - DayFromYear (y + 1 + 1)) < nat (d + 1 - DayFromYear (y + 1))"
    using a b by linarith
  then show "((d, y + 1), (d, y)) \<in> measure (\<lambda>(d, y). nat (d + 1 - DayFromYear (y + 1)))"
    by (simp only: in_measure prod.case)
qed

declare year_search.simps [simp del]

definition YearFromDay :: "int \<Rightarrow> int" where
  "YearFromDay d = year_search d (1970 + (if 0 \<le> d then d div 366 else d div 365))"

definition DayWithinYear :: "int \<Rightarrow> int" where
  "DayWithinYear d = d - DayFromYear (YearFromDay d)"

text \<open>The first day of month \<open>m\<close> (0 to 11) within a year; \<open>l\<close> is 1 in a leap year.\<close>

definition month_start :: "int \<Rightarrow> int \<Rightarrow> int" where
  "month_start l m =
     (if m = 0 then 0 else if m = 1 then 31 else if m = 2 then 59 + l
      else if m = 3 then 90 + l else if m = 4 then 120 + l else if m = 5 then 151 + l
      else if m = 6 then 181 + l else if m = 7 then 212 + l else if m = 8 then 243 + l
      else if m = 9 then 273 + l else if m = 10 then 304 + l else 334 + l)"

definition leap_days :: "int \<Rightarrow> int" where
  "leap_days y = (if InLeapYear y then 1 else 0)"

definition MonthFromDay :: "int \<Rightarrow> int" where
  "MonthFromDay d =
     (let w = DayWithinYear d; l = leap_days (YearFromDay d) in
      if w < 31 then 0 else if w < 59 + l then 1 else if w < 90 + l then 2
      else if w < 120 + l then 3 else if w < 151 + l then 4 else if w < 181 + l then 5
      else if w < 212 + l then 6 else if w < 243 + l then 7 else if w < 273 + l then 8
      else if w < 304 + l then 9 else if w < 334 + l then 10 else 11)"

definition DateFromDay :: "int \<Rightarrow> int" where
  "DateFromDay d =
     DayWithinYear d - month_start (leap_days (YearFromDay d)) (MonthFromDay d) + 1"

definition HourFromTime :: "int \<Rightarrow> int" where
  "HourFromTime t = (t div msPerHour) mod 24"

definition MinFromTime :: "int \<Rightarrow> int" where
  "MinFromTime t = (t div 60000) mod 60"

definition SecFromTime :: "int \<Rightarrow> int" where
  "SecFromTime t = (t div 1000) mod 60"

text \<open>MakeDay for a month index between 0 and 11.\<close>

definition MakeDay :: "int \<Rightarrow> int \<Rightarrow> int \<Rightarrow> int" where
  "MakeDay y m dt = DayFromYear y + month_start (leap_days y) m + dt - 1"

definition TimeClip :: "int \<Rightarrow> int option" where
  "TimeClip t = (if \<bar>t\<bar> \<le> 8640000000000000 then Some t else None)"


section \<open>The date library and the platform\<close>

text \<open>
  A date object is a time value or the Invalid Date (\<open>None\<close>). The source takes
  \<^verbatim>\<open>parseISO\<close>, \<^verbatim>\<open>isValid\<close>, \<^verbatim>\<open>addHours\<close> and \<^verbatim>\<open>format\<close> from date-fns.
  \<^verbatim>\<open>addHours\<close> adds whole hours to the time value and clips the result to the range
  of time values. \<^verbatim>\<open>format\<close> is modelled for the three patterns the source uses, on
  a valid date (on the Invalid Date it throws, which the callers below model). The year
  token prints \<open>1 - y\<close> for a year \<open>y \<le> 0\<close>, as the library does.
\<close>

type_synonym jsdate = "int option"

definition addHours :: "jsdate \<Rightarrow> int \<Rightarrow> jsdate" where
  "addHours d n = (case d of None \<Rightarrow> None | Some t \<Rightarrow> TimeClip (t + n * msPerHour))"

definition fmt_yyyy :: "int \<Rightarrow> string" where
  "fmt_yyyy t = (let y = YearFromDay (Day t) in addLeadingZeros (if 0 < y then y else 1 - y) 4)"

definition fmt_MM :: "int \<Rightarrow> string" where
  "fmt_MM t = addLeadingZeros (MonthFromDay (Day t) + 1) 2"

definition fmt_dd :: "int \<Rightarrow> string" where
  "fmt_dd t = addLeadingZeros (DateFromDay (Day t)) 2"

definition fmt_HH :: "int \<Rightarrow> string" where
  "fmt_HH t = addLeadingZeros (HourFromTime t) 2"

definition fmt_mm :: "int \<Rightarrow> string" where
  "fmt_mm t = addLeadingZeros (MinFromTime t) 2"

definition fmt_ss :: "int \<Rightarrow> string" where
  "fmt_ss t = addLeadingZeros (SecFromTime t) 2"

text \<open>\<^verbatim>\<open>format(d, 'yyyy-MM-dd')\<close>\<close>

definition format_yyyy_MM_dd :: "int \<Rightarrow> string" where
  "format_yyyy_MM_dd t = fmt_yyyy t @ ''-'' @ fmt_MM t @ ''-'' @ fmt_dd t"

text \<open>\<^verbatim>\<open>format(d, 'yyyyMMdd')\<close>\<close>

definition format_yyyyMMdd :: "int \<Rightarrow> string" where
  "format_yyyyMMdd t = fmt_yyyy t @ fmt_MM t @ fmt_dd t"

text \<open>\<^verbatim>\<open>format(d, 'yyyy-MM-dd HH:mm:ss')\<close>\<close>

definition format_yyyy_MM_dd_HH_mm_ss :: "int \<Rightarrow> string" where
  "format_yyyy_MM_dd_HH_mm_ss t =
     format_yyyy_MM_dd t @ '' '' @ fmt_HH t @ '':'' @ fmt_mm t @ '':'' @ fmt_ss t"

text \<open>
  Two functions that the source calls turn a string into a number or a date:
  \<^verbatim>\<open>parseISO\<close> of the date library and \<^verbatim>\<open>parseFloat\<close> of the language. Their
  grammars (every notation of ISO 8601, exponents, signs) and the rounding of the results
  are not defined in this theory: both are parameters of the model, gathered in the
  record \<open>platform\<close>, and every theorem that is stated for a platform \<open>pl\<close> holds for
  whatever these two functions answer. \<^verbatim>\<open>parseISO\<close> answers a date object (the
  Invalid Date is \<open>None\<close>). \<^verbatim>\<open>parseFloat\<close> answers a number, here an exact
  rational; \<open>None\<close> stands for the results that are not a finite number (NaN and the
  infinities), on all of which the date built from the result is invalid.
\<close>

record platform =
  parseISO :: "string \<Rightarrow> jsdate"
  parseFloat :: "string \<Rightarrow> rat option"

section \<open>The exporter\<close>

subsection \<open>parseDateTime\<close>

text \<open>
  A token without \<^verbatim>\<open>T\<close> gets \<^verbatim>\<open>T00:00:00\<close> appended. When the parsed date is not
  valid the result is \<^verbatim>\<open>null\<close> (the outer \<open>None\<close>); otherwise it is the date
  shifted by minus nine hours, which is a date object again and can be the Invalid Date
  when the shift leaves the range of time values.
\<close>

definition isoStringOf :: "string \<Rightarrow> string" where
  "isoStringOf dateStr = (if CHR ''T'' \<in> set dateStr then dateStr else dateStr @ ''T00:00:00'')"

definition parseDateTime :: "platform \<Rightarrow> string \<Rightarrow> jsdate option" where
  "parseDateTime pl dateStr =
     (case parseISO pl (isoStringOf dateStr) of
        None \<Rightarrow> None
      | Some date \<Rightarrow> Some (addHours (Some date) (- 9)))"

subsection \<open>Messages and rendering\<close>

text \<open>
  A message of the remote service, with the fields the exporter reads; a field that may
  be missing is an option. The user directory is the \<^verbatim>\<open>Map<string, string>\<close> of
  the source.
\<close>

record message =
  msg_ts :: string
  msg_thread_ts :: "string option"
  msg_user :: "string option"
  msg_text :: "string option"

type_synonym users = "string \<rightharpoonup> string"

text \<open>
  The operator \<^verbatim>\<open>||\<close> on values that are a string or \<^verbatim>\<open>undefined\<close>: the left
  operand when it is truthy (a non-empty string), else the right one.
\<close>

definition js_or :: "string option \<Rightarrow> string option \<Rightarrow> string option" where
  "js_or a b = (case a of None \<Rightarrow> b | Some x \<Rightarrow> if x \<noteq> [] then Some x else b)"

definition js_or_lit :: "string option \<Rightarrow> string \<Rightarrow> string" where
  "js_or_lit a d = (case a of None \<Rightarrow> d | Some x \<Rightarrow> if x \<noteq> [] then x else d)"

definition users_get :: "users \<Rightarrow> string option \<Rightarrow> string option" where
  "users_get us k = (case k of None \<Rightarrow> None | Some u \<Rightarrow> us u)"

text \<open>\<^verbatim>\<open>users.get(message.user) || message.user || 'Unknown User'\<close>\<close>

definition userName :: "message \<Rightarrow> users \<Rightarrow> string" where
  "userName m us = js_or_lit (js_or (users_get us (msg_user m)) (msg_user m)) ''Unknown User''"

text \<open>
  \<^verbatim>\<open>new Date(x)\<close> on a number: the number is truncated towards zero to whole
  milliseconds and clipped to the range of time values.
\<close>

definition newDate :: "rat \<Rightarrow> jsdate" where
  "newDate x = TimeClip (if 0 \<le> x then \<lfloor>x\<rfloor> else \<lceil>x\<rceil>)"

text \<open>
  \<^verbatim>\<open>addHours(new Date(parseFloat(message.ts) * 1000), 9)\<close>. The product is taken
  exactly.
\<close>

definition jstTimestamp :: "platform \<Rightarrow> message \<Rightarrow> jsdate" where
  "jstTimestamp pl m =
     (case parseFloat pl (msg_ts m) of
        None \<Rightarrow> None
      | Some v \<Rightarrow> addHours (newDate (v * 1000)) 9)"

text \<open>
  \<^verbatim>\<open>format\<close> throws a RangeError on the Invalid Date, so both renderers can throw:
  \<open>None\<close> is that exception.
\<close>

definition formatMessage :: "platform \<Rightarrow> message \<Rightarrow> users \<Rightarrow> string \<Rightarrow> string option" where
  "formatMessage pl m us indent =
     (case jstTimestamp pl m of
        None \<Rightarrow> None
      | Some t \<Rightarrow>
          Some (indent @ ''['' @ format_yyyy_MM_dd_HH_mm_ss t @ ''] '' @ userName m us @ '': ''
                @ js_or_lit (msg_text m) []))"

definition newline :: string where
  "newline = [CHR 0x0A]"

definition backtick :: string where
  "backtick = [CHR 0x60]"

definition formatMessageMarkdown :: "platform \<Rightarrow> message \<Rightarrow> users \<Rightarrow> string \<Rightarrow> string option" where
  "formatMessageMarkdown pl m us indent =
     (case jstTimestamp pl m of
        None \<Rightarrow> None
      | Some t \<Rightarrow>
          (let formattedTime = format_yyyy_MM_dd_HH_mm_ss t;
               body = js_or_lit (msg_text m) []
           in if indent \<noteq> []
              then Some (indent @ ''> **'' @ userName m us @ ''** '' @ backtick @ formattedTime
                         @ backtick @ newline @ indent @ ''> '' @ body @ newline)
              else Some (''### '' @ userName m us @ '' '' @ backtick @ formattedTime @ backtick
                         @ newline @ newline @ body @ newline)))"

subsection \<open>The remote service and what the exporter emits\<close>

text \<open>
  A failed call of the remote client throws an error object; the exporter reads its
  \<^verbatim>\<open>code\<close> and \<^verbatim>\<open>retryAfter\<close> properties. The calls to the outside, the waits and
  the notices sent with \<^verbatim>\<open>respond\<close> are recorded as a trace of events, in order.
  Of the console output only the progress line of the thread loop is recorded.
  \<^verbatim>\<open>respond\<close>, the file system and the upload are taken to succeed.
\<close>

datatype api_error = ApiError (err_code: "string option") (err_retryAfter: "int option")

record page =
  p_messages :: "message list option"
  p_next_cursor :: "string option"

record member =
  m_id :: string
  m_real_name :: "string option"
  m_name :: "string option"

text \<open>
  A notice is one message sent with \<^verbatim>\<open>respond\<close>, named after what it says, with the
  numbers interpolated into its text.
\<close>

datatype notice =
    Usage
  | InvalidFormat
  | InvalidRange
  | Exporting
  | EmptyResult
  | ThreadEstimate nat int
  | Progress nat nat int
  | ThreadsCompleted nat
  | ThreadsSkipped nat
  | ExportError

text \<open>
  The header of an artifact is kept as the values interpolated into it (channel name,
  period, export time, message count); the content is the header and the lines that the
  source joins with newlines. The caption of the upload carries the period, the count
  and the two download links.
\<close>

record header =
  h_channelName :: string
  h_from :: string
  h_to :: string
  h_exportedAt :: string
  h_count :: nat

record artifact =
  a_header :: header
  a_lines :: "string list"

record upload =
  u_filename :: string
  u_file :: artifact
  u_from :: string
  u_to :: string
  u_count :: nat
  u_txt_link :: string
  u_md_link :: string

datatype event =
    Respond notice
  | Sleep int
  | HistoryCall string string string "string option"
  | RepliesCall string string
  | UsersListCall
  | InfoCall string
  | LogProcessed nat nat
  | WriteFile string artifact
  | UploadCall upload

fun remote_call :: "event \<Rightarrow> bool" where
  "remote_call (HistoryCall c oldest latest cursor) = True"
| "remote_call (RepliesCall c t) = True"
| "remote_call UsersListCall = True"
| "remote_call (InfoCall c) = True"
| "remote_call (UploadCall u) = True"
| "remote_call e = False"

text \<open>
  The remote side is a parameter: what the \<open>n\<close>-th call of an endpoint answers may
  depend on the number of the call and on its arguments.
\<close>

type_synonym history_api = "nat \<Rightarrow> string \<Rightarrow> string \<Rightarrow> string \<Rightarrow> string option \<Rightarrow> api_error + page"

type_synonym replies_api = "nat \<Rightarrow> string \<Rightarrow> string \<Rightarrow> api_error + message list option"

record world =
  w_history :: history_api
  w_replies :: replies_api
  w_users_list :: "api_error + member list option"
  w_info :: "api_error + string option"
  w_now :: int
  w_domain :: string

subsection \<open>getThreadReplies\<close>

text \<open>
  The result is the replies, the number of calls of the replies endpoint made so far,
  and the events. \<^verbatim>\<open>result.messages.slice(1)\<close> drops the thread root when there is
  more than one message.
\<close>

definition slice1 :: "message list option \<Rightarrow> message list" where
  "slice1 r = (case r of None \<Rightarrow> [] | Some ms \<Rightarrow> if 1 < length ms then tl ms else [])"

text \<open>\<^verbatim>\<open>(error as any).retryAfter || 60\<close>: zero is falsy, as is a missing value.\<close>

definition retry_wait :: "api_error \<Rightarrow> int" where
  "retry_wait e = (case err_retryAfter e of None \<Rightarrow> 60 | Some r \<Rightarrow> if r \<noteq> 0 then r else 60)"

definition getThreadReplies ::
  "replies_api \<Rightarrow> nat \<Rightarrow> string \<Rightarrow> string \<Rightarrow> message list \<times> nat \<times> event list" where
  "getThreadReplies api n channelId threadTs =
     (case api n channelId threadTs of
        Inr result \<Rightarrow> (slice1 result, n + 1, [Sleep 5000, RepliesCall channelId threadTs])
      | Inl error \<Rightarrow>
          if err_code error = Some ''slack_webapi_rate_limited''
          then (let retryAfter = retry_wait error;
                    evs = [Sleep 5000, RepliesCall channelId threadTs,
                           Sleep (retryAfter * 1000), RepliesCall channelId threadTs]
                in case api (n + 1) channelId threadTs of
                     Inr retryResult \<Rightarrow> (slice1 retryResult, n + 2, evs)
                   | Inl retryError \<Rightarrow> ([], n + 2, evs))
          else ([], n + 1, [Sleep 5000, RepliesCall channelId threadTs]))"

subsection \<open>getUsersInfo\<close>

definition getUsersInfo :: "api_error + member list option \<Rightarrow> users" where
  "getUsersInfo r =
     (case r of
        Inl error \<Rightarrow> Map.empty
      | Inr None \<Rightarrow> Map.empty
      | Inr (Some members) \<Rightarrow>
          foldl (\<lambda>us mb. us(m_id mb \<mapsto> js_or_lit (js_or (m_real_name mb) (m_name mb)) (m_id mb)))
            Map.empty members)"


subsection \<open>The download route\<close>



subsection \<open>processExportAsync: the paginated fetch\<close>

text \<open>
  The \<^verbatim>\<open>do ... while (cursor)\<close> loop over \<^verbatim>\<open>conversations.history\<close>. It may
  run forever, so its model is a partial function: \<open>None\<close> means that the loop does
  not return. A failed call throws out of the loop (\<open>Inl\<close>). The loop goes on while the
  next cursor is truthy, that is, present and not the empty string.
\<close>

partial_function (option) fetchHistory ::
  "history_api \<Rightarrow> string \<Rightarrow> string \<Rightarrow> string \<Rightarrow> nat \<Rightarrow> string option \<Rightarrow> message list
     \<Rightarrow> event list \<Rightarrow> ((api_error + message list) \<times> event list) option" where
  "fetchHistory api channelId startTs endTs pageCount cursor messages evs =
     (let evs' = evs @ [HistoryCall channelId startTs endTs cursor] in
      case api pageCount channelId startTs endTs cursor of
        Inl error \<Rightarrow> Some (Inl error, evs')
      | Inr result \<Rightarrow>
          (let messages' = (case p_messages result of None \<Rightarrow> messages
                            | Some ms \<Rightarrow> messages @ ms)
           in case p_next_cursor result of
                None \<Rightarrow> Some (Inr messages', evs')
              | Some c \<Rightarrow>
                  if c \<noteq> []
                  then fetchHistory api channelId startTs endTs (pageCount + 1) (Some c)
                         messages' evs'
                  else Some (Inr messages', evs')))"

subsection \<open>processExportAsync: ordering\<close>

text \<open>
  \<^verbatim>\<open>messages.sort((a, b) => parseFloat(a.ts) - parseFloat(b.ts))\<close>: the language
  standard makes the sort stable, and with numeric keys the comparator is consistent, so
  the result is the stable sort by the key. When a key is not a finite number the
  outcome of the sort does not matter (\<open>None\<close>): rendering then throws on that message
  whatever the order.
\<close>

definition ts_key :: "platform \<Rightarrow> message \<Rightarrow> rat" where
  "ts_key pl m = (case parseFloat pl (msg_ts m) of None \<Rightarrow> 0 | Some v \<Rightarrow> v)"

definition sortMessages :: "platform \<Rightarrow> message list \<Rightarrow> message list option" where
  "sortMessages pl ms =
     (if list_all (\<lambda>m. parseFloat pl (msg_ts m) \<noteq> None) ms
      then Some (sort_key (ts_key pl) ms) else None)"

subsection \<open>processExportAsync: thread replies\<close>

text \<open>\<^verbatim>\<open>msg.thread_ts && msg.thread_ts === msg.ts\<close>\<close>

definition isThreadParent :: "message \<Rightarrow> bool" where
  "isThreadParent msg =
     (case msg_thread_ts msg of None \<Rightarrow> False | Some t \<Rightarrow> t \<noteq> [] \<and> t = msg_ts msg)"

fun findIndex :: "('a \<Rightarrow> bool) \<Rightarrow> 'a list \<Rightarrow> nat option" where
  "findIndex p [] = None"
| "findIndex p (x # xs) =
     (if p x then Some 0 else (case findIndex p xs of None \<Rightarrow> None | Some i \<Rightarrow> Some (Suc i)))"

text \<open>\<^verbatim>\<open>xs.splice(i, 0, ...ys)\<close>: an index beyond the end inserts at the end.\<close>

definition splice_in :: "'a list \<Rightarrow> nat \<Rightarrow> 'a list \<Rightarrow> 'a list" where
  "splice_in xs i ys = take i xs @ ys @ drop i xs"

text \<open>The indent of a reply line: two blanks, the two box-drawing characters, a blank.\<close>

definition reply_indent :: string where
  "reply_indent = [CHR '' '', CHR '' '', CHR 0xE2, CHR 0x94, CHR 0x94, CHR 0xE2, CHR 0x94, CHR 0x80,
                   CHR '' '']"

record tstate =
  allMessages :: "string list"
  allMessagesMarkdown :: "string list"
  totalMessageCount :: nat
  repliesCalls :: nat
  trace :: "event list"

text \<open>
  The insertion of one thread's replies: the parent is looked up as the first rendered
  plain line that includes the parent's \<^verbatim>\<open>ts\<close> string; when there is none, nothing is
  inserted. Rendering a reply can throw (\<open>None\<close>).
\<close>

definition insertReplies ::
  "platform \<Rightarrow> users \<Rightarrow> message \<Rightarrow> message list \<Rightarrow> string list \<Rightarrow> string list
     \<Rightarrow> (string list \<times> string list) option" where
  "insertReplies pl us msg replies plain markdown =
     (case findIndex (\<lambda>m. str_includes m (msg_ts msg)) plain of
        None \<Rightarrow> Some (plain, markdown)
      | Some parentIndex \<Rightarrow>
          (case those (map (\<lambda>reply. formatMessage pl reply us reply_indent) replies) of
             None \<Rightarrow> None
           | Some replyTexts \<Rightarrow>
               (case those (map (\<lambda>reply. formatMessageMarkdown pl reply us ''  '') replies) of
                  None \<Rightarrow> None
                | Some replyMarkdowns \<Rightarrow>
                    Some (splice_in plain (parentIndex + 1) replyTexts,
                          splice_in markdown (parentIndex + 1) replyMarkdowns))))"

text \<open>\<^verbatim>\<open>Math.ceil((k * 5) / 60)\<close>\<close>

definition estimateMinutes :: "nat \<Rightarrow> int" where
  "estimateMinutes k = \<lceil>(of_nat (k * 5) :: rat) / 60\<rceil>"

text \<open>
  What the loop emits after thread \<open>i\<close> (counted from 0) of \<open>n\<close>: the console line on
  every tenth thread and on the last one, the notice on every tenth thread that is not
  the last one.
\<close>

definition progressEvents :: "nat \<Rightarrow> nat \<Rightarrow> event list" where
  "progressEvents n i =
     (if (i + 1) mod 10 = 0 \<or> int i = int n - 1
      then LogProcessed (i + 1) n #
           (if (i + 1) mod 10 = 0 \<and> int i < int n - 1
            then [Respond (Progress (i + 1) n (estimateMinutes (n - i - 1)))] else [])
      else [])"

definition threadTsOf :: "message \<Rightarrow> string" where
  "threadTsOf msg = (case msg_thread_ts msg of None \<Rightarrow> [] | Some t \<Rightarrow> t)"

text \<open>
  The \<^verbatim>\<open>for\<close> loop over the thread parents, from index \<open>i\<close> on; \<open>n\<close> is their
  number. When a reply cannot be rendered the loop throws: \<open>Inl\<close> carries the events
  up to that point.
\<close>

fun processThreads ::
  "platform \<Rightarrow> replies_api \<Rightarrow> users \<Rightarrow> string \<Rightarrow> nat \<Rightarrow> nat \<Rightarrow> message list \<Rightarrow> tstate
     \<Rightarrow> event list + tstate" where
  "processThreads pl api us channelId n i [] st = Inr st"
| "processThreads pl api us channelId n i (msg # rest) st =
     (case getThreadReplies api (repliesCalls st) channelId (threadTsOf msg) of
        (replies, calls', evs) \<Rightarrow>
          (case insertReplies pl us msg replies (allMessages st) (allMessagesMarkdown st) of
             None \<Rightarrow> Inl (trace st @ evs)
           | Some (plain, markdown) \<Rightarrow>
               processThreads pl api us channelId n (i + 1) rest
                 \<lparr>allMessages = plain, allMessagesMarkdown = markdown,
                  totalMessageCount = totalMessageCount st + length replies,
                  repliesCalls = calls',
                  trace = trace st @ evs @ progressEvents n i\<rparr>))"

text \<open>
  The branch around the loop: the estimate before it and the completion notice after it,
  or the notice that the threads were skipped.
\<close>

definition threadPhase ::
  "platform \<Rightarrow> replies_api \<Rightarrow> users \<Rightarrow> string \<Rightarrow> bool \<Rightarrow> message list \<Rightarrow> tstate
     \<Rightarrow> event list + tstate" where
  "threadPhase pl api us channelId skipThreads threadMessages st =
     (let n = length threadMessages in
      if 0 < n \<and> \<not> skipThreads
      then (case processThreads pl api us channelId n 0 threadMessages
                   (st\<lparr>trace := trace st @ [Respond (ThreadEstimate n (estimateMinutes n))]\<rparr>) of
              Inl evs \<Rightarrow> Inl evs
            | Inr st' \<Rightarrow> Inr (st'\<lparr>trace := trace st' @ [Respond (ThreadsCompleted n)]\<rparr>))
      else if skipThreads \<and> 0 < n
      then Inr (st\<lparr>trace := trace st @ [Respond (ThreadsSkipped n)]\<rparr>)
      else Inr st)"

subsection \<open>processExportAsync: the artifacts\<close>

datatype failure = RangeError | RemoteError api_error

record export =
  x_baseFileName :: string
  x_txtFileName :: string
  x_mdFileName :: string
  x_contentText :: artifact
  x_contentMarkdown :: artifact
  x_upload :: upload

datatype outcome = Stopped notice | Failed failure | Exported export

text \<open>
  From the header to the upload. The three dates are shifted by nine hours and
  formatted; \<^verbatim>\<open>format\<close> throws when a shifted date is invalid. The channel name goes
  into the file names as it is.
\<close>

definition writeExport ::
  "world \<Rightarrow> string \<Rightarrow> string \<Rightarrow> jsdate \<Rightarrow> jsdate \<Rightarrow> tstate \<Rightarrow> event list \<times> outcome" where
  "writeExport w channelId channelName startDate endDate st =
     (case (addHours (Some (w_now w)) 9, addHours startDate 9, addHours endDate 9) of
        (Some jstNow, Some jstStartDate, Some jstEndDate) \<Rightarrow>
          (let hdr = \<lparr>h_channelName = channelName,
                      h_from = format_yyyy_MM_dd jstStartDate,
                      h_to = format_yyyy_MM_dd jstEndDate,
                      h_exportedAt = format_yyyy_MM_dd_HH_mm_ss jstNow,
                      h_count = totalMessageCount st\<rparr>;
               contentText = \<lparr>a_header = hdr, a_lines = allMessages st\<rparr>;
               contentMarkdown = \<lparr>a_header = hdr, a_lines = allMessagesMarkdown st\<rparr>;
               baseFileName = channelName @ ''_'' @ format_yyyyMMdd jstStartDate @ ''-''
                              @ format_yyyyMMdd jstEndDate;
               txtFileName = baseFileName @ ''.txt'';
               mdFileName = baseFileName @ ''.md'';
               up = \<lparr>u_filename = txtFileName, u_file = contentText,
                      u_from = format_yyyy_MM_dd jstStartDate,
                      u_to = format_yyyy_MM_dd jstEndDate,
                      u_count = totalMessageCount st,
                      u_txt_link = ''https://'' @ w_domain w @ ''/download/'' @ txtFileName,
                      u_md_link = ''https://'' @ w_domain w @ ''/download/'' @ mdFileName\<rparr>
           in (trace st @ [WriteFile txtFileName contentText, WriteFile mdFileName contentMarkdown,
                           UploadCall up],
               Exported \<lparr>x_baseFileName = baseFileName, x_txtFileName = txtFileName,
                         x_mdFileName = mdFileName, x_contentText = contentText,
                         x_contentMarkdown = contentMarkdown, x_upload = up\<rparr>))
      | _ \<Rightarrow> (trace st @ [Respond ExportError], Failed RangeError))"

text \<open>
  The channel name: \<^verbatim>\<open>channelInfo.channel?.name || channelId\<close>, or
  \<^verbatim>\<open>'unknown-channel'\<close> when the lookup throws.
\<close>

definition channelNameOf :: "world \<Rightarrow> string \<Rightarrow> string" where
  "channelNameOf w channelId =
     (case w_info w of Inl error \<Rightarrow> ''unknown-channel'' | Inr name \<Rightarrow> js_or_lit name channelId)"

text \<open>
  What follows the fetch: the empty result, the sort, the user directory, the channel
  name, the rendering of the primary messages, the threads, the artifacts.
\<close>

definition afterFetch ::
  "platform \<Rightarrow> world \<Rightarrow> string \<Rightarrow> bool \<Rightarrow> jsdate \<Rightarrow> jsdate \<Rightarrow> message list \<Rightarrow> event list
     \<Rightarrow> event list \<times> outcome" where
  "afterFetch pl w channelId skipThreads startDate endDate messages evs =
     (if messages = [] then (evs @ [Respond EmptyResult], Stopped EmptyResult)
      else
        (let us = getUsersInfo (w_users_list w);
             channelName = channelNameOf w channelId;
             evs1 = evs @ [UsersListCall, InfoCall channelId]
         in case sortMessages pl messages of
              None \<Rightarrow> (evs1 @ [Respond ExportError], Failed RangeError)
            | Some ordered \<Rightarrow>
                (case (those (map (\<lambda>msg. formatMessage pl msg us []) ordered),
                       those (map (\<lambda>msg. formatMessageMarkdown pl msg us []) ordered)) of
                   (Some plain, Some markdown) \<Rightarrow>
                     (case threadPhase pl (w_replies w) us channelId skipThreads
                             (filter isThreadParent ordered)
                             \<lparr>allMessages = plain, allMessagesMarkdown = markdown,
                              totalMessageCount = length ordered, repliesCalls = 0,
                              trace = evs1\<rparr> of
                        Inl evs2 \<Rightarrow> (evs2 @ [Respond ExportError], Failed RangeError)
                      | Inr st \<Rightarrow> writeExport w channelId channelName startDate endDate st)
                 | _ \<Rightarrow> (evs1 @ [Respond ExportError], Failed RangeError))))"

subsection \<open>processExportAsync\<close>

definition int_toString :: "int \<Rightarrow> string" where
  "int_toString i = (if i < 0 then ''-'' @ toString (nat (- i)) else toString (nat i))"

text \<open>\<^verbatim>\<open>Math.floor(date.getTime() / 1000).toString()\<close>\<close>

definition secondsString :: "jsdate \<Rightarrow> string" where
  "secondsString d = (case d of None \<Rightarrow> ''NaN'' | Some t \<Rightarrow> int_toString (t div 1000))"

text \<open>
  \<^verbatim>\<open>startDate >= endDate\<close> on two date objects compares their time values; with an
  Invalid Date on either side it is false.
\<close>

definition date_ge :: "jsdate \<Rightarrow> jsdate \<Rightarrow> bool" where
  "date_ge a b = (case (a, b) of (Some x, Some y) \<Rightarrow> y \<le> x | _ \<Rightarrow> False)"

text \<open>
  The arguments are the command text split at white space. \<open>None\<close> means that the
  export never returns (the fetch loop does not end).
\<close>

definition processExportAsync ::
  "platform \<Rightarrow> world \<Rightarrow> string list \<Rightarrow> string \<Rightarrow> (event list \<times> outcome) option" where
  "processExportAsync pl w args channelId =
     (if length args < 2 then Some ([Respond Usage], Stopped Usage)
      else
        (let startDateStr = args ! 0; endDateStr = args ! 1;
             skipThreads = (''--no-threads'' \<in> set args)
         in case (parseDateTime pl startDateStr, parseDateTime pl endDateStr) of
              (Some startDate, Some endDate) \<Rightarrow>
                if date_ge startDate endDate
                then Some ([Respond InvalidRange], Stopped InvalidRange)
                else (case fetchHistory (w_history w) channelId
                             (secondsString startDate) (secondsString endDate)
                             0 None [] [Respond Exporting] of
                        None \<Rightarrow> None
                      | Some (Inl error, evs) \<Rightarrow>
                          Some (evs @ [Respond ExportError], Failed (RemoteError error))
                      | Some (Inr messages, evs) \<Rightarrow>
                          Some (afterFetch pl w channelId skipThreads startDate endDate messages evs))
            | _ \<Rightarrow> Some ([Respond InvalidFormat], Stopped InvalidFormat)))"

section \<open>Readings of a run\<close>

text \<open>The artifacts of an export that completed.\<close>

definition exported :: "(event list \<times> outcome) option \<Rightarrow> export option" where
  "exported r = (case r of Some (evs, Exported x) \<Rightarrow> Some x | _ \<Rightarrow> None)"

text \<open>The events of an export that returned.\<close>

definition events_of :: "(event list \<times> outcome) option \<Rightarrow> event list" where
  "events_of r = (case r of Some (evs, out) \<Rightarrow> evs | None \<Rightarrow> [])"

text \<open>
  The reply sets that the successive invocations of the reply fetcher return for a list
  of thread parents, the first invocation being call number \<open>n\<close> of the endpoint.
\<close>

fun fetchedReplies :: "replies_api \<Rightarrow> nat \<Rightarrow> string \<Rightarrow> message list \<Rightarrow> message list list" where
  "fetchedReplies api n channelId [] = []"
| "fetchedReplies api n channelId (msg # rest) =
     (case getThreadReplies api n channelId (threadTsOf msg) of
        (replies, n', evs) \<Rightarrow> replies # fetchedReplies api n' channelId rest)"

text \<open>The primary messages of an export: what the paginated fetch returned.\<close>

definition primaryMessages ::
  "platform \<Rightarrow> world \<Rightarrow> string list \<Rightarrow> string \<Rightarrow> message list option" where
  "primaryMessages pl w args channelId =
     (case (parseDateTime pl (args ! 0), parseDateTime pl (args ! 1)) of
        (Some startDate, Some endDate) \<Rightarrow>
          (case fetchHistory (w_history w) channelId (secondsString startDate)
                  (secondsString endDate) 0 None [] [Respond Exporting] of
             Some (Inr messages, evs) \<Rightarrow> Some messages
           | _ \<Rightarrow> None)
      | _ \<Rightarrow> None)"

text \<open>
  The progress events in a trace: the console lines and the progress notices of the
  thread loop.
\<close>

fun progress_event :: "event \<Rightarrow> bool" where
  "progress_event (LogProcessed k n) = True"
| "progress_event (Respond (Progress k n r)) = True"
| "progress_event e = False"

text \<open>
  The remote side lets the paginated fetch stop within \<open>k\<close> calls, from call number
  \<open>pageCount\<close> with the cursor \<open>cursor\<close> on: one of these calls fails, or answers
  with a page whose next cursor is absent or the empty string.
\<close>

fun stops_within ::
  "history_api \<Rightarrow> string \<Rightarrow> string \<Rightarrow> string \<Rightarrow> nat \<Rightarrow> nat \<Rightarrow> string option \<Rightarrow> bool" where
  "stops_within api channelId startTs endTs 0 pageCount cursor = False"
| "stops_within api channelId startTs endTs (Suc k) pageCount cursor =
     (case api pageCount channelId startTs endTs cursor of
        Inl error \<Rightarrow> True
      | Inr result \<Rightarrow>
          (case p_next_cursor result of
             None \<Rightarrow> True
           | Some c \<Rightarrow> c = [] \<or> stops_within api channelId startTs endTs k (pageCount + 1) (Some c)))"

section \<open>The behaviour the specification words differently\<close>

text \<open>
  Where the specification describes an operation in words that the source does not
  follow to the letter, the wording is written down here as a definition of its own, to
  be compared with the definition taken from the source.
\<close>

text \<open>
  Author resolution as the specification writes it,
  \<^verbatim>\<open>userDirectory.get(authorId) ?? authorId ?? "Unknown User"\<close>: the first value that is
  defined, empty or not.
\<close>

definition author_first_defined :: "message \<Rightarrow> users \<Rightarrow> string" where
  "author_first_defined m us =
     (case users_get us (msg_user m) of
        Some n \<Rightarrow> n
      | None \<Rightarrow> (case msg_user m of Some u \<Rightarrow> u | None \<Rightarrow> ''Unknown User''))"

text \<open>
  The wait before the retry as the specification writes it: the failure's retry-after
  duration, 60 seconds when it is absent.
\<close>

definition retry_after_or_default :: "api_error \<Rightarrow> int" where
  "retry_after_or_default e = (case err_retryAfter e of None \<Rightarrow> 60 | Some r \<Rightarrow> r)"


section \<open>The calendar notation\<close>

text \<open>
  The command documents dates in the notation \<^verbatim>\<open>YYYY-MM-DD\<close>. This section says
  which time value such a token writes: local midnight of that day, when the day exists
  in the calendar (the check is the one of the date library's \<^verbatim>\<open>validateDate\<close>, with
  months counted from 0). It is a statement about the notation, used below to say what
  a parser is expected to answer on such tokens; it is not the parser of the platform.
\<close>

definition isLeapYearIndex :: "int \<Rightarrow> bool" where
  "isLeapYearIndex year = (year mod 400 = 0 \<or> (year mod 4 = 0 \<and> year mod 100 \<noteq> 0))"

definition daysInMonth :: "int \<Rightarrow> int \<Rightarrow> int" where
  "daysInMonth year month =
     (if month = 1 then (if isLeapYearIndex year then 29 else 28)
      else if month = 3 \<or> month = 5 \<or> month = 8 \<or> month = 10 then 30 else 31)"

definition validateDate :: "int \<Rightarrow> int \<Rightarrow> int \<Rightarrow> bool" where
  "validateDate year month date =
     (0 \<le> month \<and> month \<le> 11 \<and> 1 \<le> date \<and> date \<le> daysInMonth year month)"

definition digits2 :: "string \<Rightarrow> bool" where
  "digits2 s = (length s = 2 \<and> list_all is_digit s)"

text \<open>The shape \<^verbatim>\<open>YYYY-MM-DD\<close>: four digits, a hyphen, two digits, a hyphen, two digits.\<close>

definition calendar_token :: "string \<Rightarrow> bool" where
  "calendar_token s =
     (length s = 10 \<and> list_all is_digit (take 4 s) \<and> s ! 4 = CHR ''-''
      \<and> digits2 (take 2 (drop 5 s)) \<and> s ! 7 = CHR ''-'' \<and> digits2 (drop 8 s))"

definition tokenYear :: "string \<Rightarrow> int" where
  "tokenYear s = parseInt (take 4 s)"

definition calendarMidnight :: "string \<Rightarrow> jsdate" where
  "calendarMidnight s =
     (if calendar_token s
      then (let year = tokenYear s;
                month = parseInt (take 2 (drop 5 s)) - 1;
                day = parseInt (drop 8 s)
            in if validateDate year month day
               then Some (MakeDay year month day * msPerDay) else None)
      else None)"

section \<open>Example inputs\<close>

text \<open>
  Concrete platforms, remote sides and messages, on which the theorems below are
  instantiated. The example parser of dates reads the tokens \<^verbatim>\<open>YYYY-MM-DD\<close>, alone or
  followed by \<^verbatim>\<open>T\<close> or a blank and a time \<^verbatim>\<open>HH:mm\<close> or \<^verbatim>\<open>HH:mm:ss\<close>, the way the
  date library reads them: the string is split at every delimiter, more than two pieces
  are invalid, the time is checked as by the library's \<^verbatim>\<open>validateTime\<close>. The example
  parser of numbers reads plain decimal numerals (digits, optionally a point and digits)
  and ignores what follows them. Both know no other notation; they stand for the
  platform only in the examples, whose strings are in these notations.
\<close>

definition validateTime :: "int \<Rightarrow> int \<Rightarrow> int \<Rightarrow> bool" where
  "validateTime hours minutes seconds =
     (if hours = 24 then minutes = 0 \<and> seconds = 0
      else 0 \<le> seconds \<and> seconds < 60 \<and> 0 \<le> minutes \<and> minutes < 60
           \<and> 0 \<le> hours \<and> hours < 25)"

definition parseTime :: "string \<Rightarrow> int option" where
  "parseTime s =
     (if (length s = 5 \<or> length s = 8 \<and> s ! 5 = CHR '':'' \<and> digits2 (drop 6 s))
         \<and> digits2 (take 2 s) \<and> s ! 2 = CHR '':'' \<and> digits2 (take 2 (drop 3 s))
      then (let hours = parseInt (take 2 s);
                minutes = parseInt (take 2 (drop 3 s));
                seconds = (if length s = 8 then parseInt (drop 6 s) else 0)
            in if validateTime hours minutes seconds
               then Some (hours * msPerHour + minutes * 60000 + seconds * 1000) else None)
      else None)"

definition dateTimeDelimiter :: "char \<Rightarrow> bool" where
  "dateTimeDelimiter c = (c = CHR ''T'' \<or> c = CHR '' '')"

definition example_parseISO :: "string \<Rightarrow> jsdate" where
  "example_parseISO argument =
     (case split_on dateTimeDelimiter argument of
        [d] \<Rightarrow> calendarMidnight d
      | [d, tm] \<Rightarrow>
          (case calendarMidnight d of
             None \<Rightarrow> None
           | Some timestamp \<Rightarrow>
               if tm = [] then Some timestamp
               else (case parseTime tm of None \<Rightarrow> None | Some time \<Rightarrow> Some (timestamp + time)))
      | _ \<Rightarrow> None)"

definition example_parseFloat :: "string \<Rightarrow> rat option" where
  "example_parseFloat s =
     (let ip = takeWhile is_digit s; rest = dropWhile is_digit s in
      if ip = [] then None
      else if rest \<noteq> [] \<and> hd rest = CHR ''.''
      then (let fp = takeWhile is_digit (tl rest)
            in Some (of_int (parseInt ip) + of_int (parseInt fp) / 10 ^ length fp))
      else Some (of_int (parseInt ip)))"

definition example_platform :: platform where
  "example_platform = \<lparr>parseISO = example_parseISO, parseFloat = example_parseFloat\<rparr>"

text \<open>
  The example world answers the user listing with no members and the channel lookup with
  the name \<open>general\<close>; its clock stands at 2024-02-01 00:00:00 UTC.
\<close>

definition empty_history :: history_api where
  "empty_history n c oldest latest cursor = Inr \<lparr>p_messages = Some [], p_next_cursor = None\<rparr>"

definition no_replies :: replies_api where
  "no_replies n c t = Inr None"

definition world_of :: "history_api \<Rightarrow> replies_api \<Rightarrow> world" where
  "world_of h r =
     \<lparr>w_history = h, w_replies = r, w_users_list = Inr (Some []),
      w_info = Inr (Some ''general''), w_now = 1706745600000, w_domain = ''example.test''\<rparr>"

text \<open>
  One thread: a parent written at 2024-01-01 09:00:00 local time that is its own thread
  root, and its two replies. The history endpoint delivers the parent in one page; the
  replies endpoint answers with the root followed by the replies.
\<close>

definition parent1 :: message where
  "parent1 = \<lparr>msg_ts = ''1704067200.000100'', msg_thread_ts = Some ''1704067200.000100'',
               msg_user = Some ''U1'', msg_text = Some ''hello''\<rparr>"

definition reply1 :: message where
  "reply1 = \<lparr>msg_ts = ''1704067260.000200'', msg_thread_ts = Some ''1704067200.000100'',
              msg_user = Some ''U2'', msg_text = Some ''first''\<rparr>"

definition reply2 :: message where
  "reply2 = \<lparr>msg_ts = ''1704067320.000300'', msg_thread_ts = Some ''1704067200.000100'',
              msg_user = Some ''U1'', msg_text = Some ''second''\<rparr>"

definition parent1_block :: string where
  "parent1_block = ''### U1 '' @ backtick @ ''2024-01-01 09:00:00'' @ backtick @ newline @ newline
           @ ''hello'' @ newline"

definition one_page :: "message list \<Rightarrow> history_api" where
  "one_page ms n c oldest latest cursor = Inr \<lparr>p_messages = Some ms, p_next_cursor = None\<rparr>"

definition thread_of :: "message list \<Rightarrow> replies_api" where
  "thread_of ms n c t = Inr (Some ms)"

definition thread_world :: world where
  "thread_world = world_of (one_page [parent1]) (thread_of [parent1, reply1, reply2])"


text \<open>A history endpoint that answers every call with an empty page and the same cursor.\<close>

definition stuck_history :: history_api where
  "stuck_history n c oldest latest cursor = Inr \<lparr>p_messages = Some [], p_next_cursor = Some ''a''\<rparr>"

text \<open>A history endpoint that delivers two pages, the newer messages first.\<close>

definition two_pages :: "message list \<Rightarrow> message list \<Rightarrow> history_api" where
  "two_pages first second n c oldest latest cursor =
     (if cursor = None then Inr \<lparr>p_messages = Some first, p_next_cursor = Some ''next''\<rparr>
      else Inr \<lparr>p_messages = Some second, p_next_cursor = Some []\<rparr>)"

section \<open>Facts about the calendar and the digits\<close>

lemma DayFromYear_add: "DayFromYear y + 365 * int k \<le> DayFromYear (y + int k) \<and> DayFromYear (y + int k) \<le> DayFromYear y + 366 * int k"
proof (induction k)
  case 0
  then show ?case by simp
next
  case (Suc k)
  have "DayFromYear (y + int (Suc k)) = DayFromYear (y + int k + 1)"
    by (simp add: algebra_simps)
  also have "\<dots> = DayFromYear (y + int k) + (if InLeapYear (y + int k) then 366 else 365)"
    by (rule DayFromYear_step)
  finally show ?case using Suc by (auto split: if_splits)
qed

lemma DayFromYear_mono: "y \<le> z \<Longrightarrow> DayFromYear y \<le> DayFromYear z"
  using DayFromYear_add [of y "nat (z - y)"] by simp

lemma DayFromYear_strict: "y < z \<Longrightarrow> DayFromYear y < DayFromYear z"
  using DayFromYear_mono [of "y + 1" z] DayFromYear_less [of y] by simp

lemma DayFromYear_1970: "DayFromYear 1970 = 0"
  by (simp add: DayFromYear_def)

lemma year_search_spec:
  "DayFromYear y \<le> d \<Longrightarrow>
   DayFromYear (year_search d y) \<le> d \<and> d < DayFromYear (year_search d y + 1)"
proof (induction d y rule: year_search.induct)
  case (1 d y)
  show ?case
  proof (cases "DayFromYear (y + 1) \<le> d")
    case True
    with 1 show ?thesis by (simp add: year_search.simps [of d y])
  next
    case False
    with 1 show ?thesis by (simp add: year_search.simps [of d y])
  qed
qed

lemma year_estimate:
  "DayFromYear (1970 + (if 0 \<le> d then d div 366 else d div 365)) \<le> d"
proof (cases "0 \<le> d")
  case True
  define k where "k = nat (d div 366)"
  have k: "int k = d div 366" using True by (simp add: k_def pos_imp_zdiv_nonneg_iff)
  have "DayFromYear (1970 + int k) \<le> 366 * int k"
    using DayFromYear_add [of 1970 k] by (simp add: DayFromYear_1970)
  moreover have "366 * (d div 366) \<le> d"
    by (simp add: mult.commute [of 366])
  ultimately show ?thesis using True k by simp
next
  case False
  define k where "k = nat (- (d div 365))"
  have neg: "d div 365 < 0" using False by (simp add: div_neg_pos_less0)
  have k: "int k = - (d div 365)" using neg by (simp add: k_def)
  have "DayFromYear (1970 + d div 365) + 365 * int k \<le> DayFromYear (1970 + d div 365 + int k)"
    using DayFromYear_add [of "1970 + d div 365" k] by simp
  then have "DayFromYear (1970 + d div 365) \<le> 365 * (d div 365)"
    using k by (simp add: DayFromYear_1970)
  moreover have "365 * (d div 365) \<le> d"
    by (simp add: mult.commute [of 365])
  ultimately show ?thesis using False by simp
qed

lemma YearFromDay_spec:
  "DayFromYear (YearFromDay d) \<le> d \<and> d < DayFromYear (YearFromDay d + 1)"
  unfolding YearFromDay_def by (rule year_search_spec [OF year_estimate])

lemma YearFromDay_eq:
  assumes "DayFromYear y \<le> d" and "d < DayFromYear (y + 1)"
  shows "YearFromDay d = y"
proof (rule ccontr)
  assume ne: "YearFromDay d \<noteq> y"
  let ?z = "YearFromDay d"
  have s: "DayFromYear ?z \<le> d" "d < DayFromYear (?z + 1)"
    using YearFromDay_spec [of d] by simp_all
  show False
  proof (cases "?z < y")
    case True
    then have "DayFromYear (?z + 1) \<le> DayFromYear y" by (intro DayFromYear_mono) simp
    with s assms show False by simp
  next
    case False
    with ne have "y + 1 \<le> ?z" by simp
    then have "DayFromYear (y + 1) \<le> DayFromYear ?z" by (rule DayFromYear_mono)
    with s assms show False by simp
  qed
qed


lemma isLeapYearIndex_eq: "isLeapYearIndex y = InLeapYear y"
  unfolding isLeapYearIndex_def InLeapYear_def
  using leap_divides(1) [of y] leap_divides(2) [of y] by metis

lemma month_index_cases:
  fixes m :: int
  assumes "0 \<le> m" and "m \<le> 11"
  shows "m = 0 \<or> m = 1 \<or> m = 2 \<or> m = 3 \<or> m = 4 \<or> m = 5 \<or> m = 6
         \<or> m = 7 \<or> m = 8 \<or> m = 9 \<or> m = 10 \<or> m = 11"
  using assms by arith

lemma leap_days_cases: "leap_days y = 0 \<or> leap_days y = 1"
  by (simp add: leap_days_def)

lemma within_year_bounds:
  assumes "validateDate y m dt"
  shows "0 \<le> month_start (leap_days y) m + dt - 1"
    and "month_start (leap_days y) m + dt - 1 < 365 + leap_days y"
proof -
  have m: "0 \<le> m" "m \<le> 11" and d: "1 \<le> dt" "dt \<le> daysInMonth y m"
    using assms by (simp_all add: validateDate_def)
  have feb: "daysInMonth y 1 = 28 + leap_days y"
    by (simp add: daysInMonth_def leap_days_def isLeapYearIndex_eq)
  show "0 \<le> month_start (leap_days y) m + dt - 1"
    using month_index_cases [OF m] d(1) leap_days_cases [of y]
    by (auto simp: month_start_def)
  show "month_start (leap_days y) m + dt - 1 < 365 + leap_days y"
    using month_index_cases [OF m] d(2) feb leap_days_cases [of y]
    by (auto simp: month_start_def daysInMonth_def)
qed

lemma YearFromDay_MakeDay:
  assumes "validateDate y m dt"
  shows "YearFromDay (MakeDay y m dt) = y"
proof (rule YearFromDay_eq)
  show "DayFromYear y \<le> MakeDay y m dt"
    using within_year_bounds(1) [OF assms] by (simp add: MakeDay_def)
  have "DayFromYear (y + 1) = DayFromYear y + 365 + leap_days y"
    by (simp add: DayFromYear_step leap_days_def)
  then show "MakeDay y m dt < DayFromYear (y + 1)"
    using within_year_bounds(2) [OF assms] by (simp add: MakeDay_def)
qed

lemma DayWithinYear_MakeDay:
  assumes "validateDate y m dt"
  shows "DayWithinYear (MakeDay y m dt) = month_start (leap_days y) m + dt - 1"
  unfolding DayWithinYear_def YearFromDay_MakeDay [OF assms] by (simp add: MakeDay_def)

lemma month_of_within:
  fixes l m dt :: int
  shows "l = 0 \<or> l = 1 \<Longrightarrow>
    m = 0 \<or> m = 1 \<or> m = 2 \<or> m = 3 \<or> m = 4 \<or> m = 5 \<or> m = 6
         \<or> m = 7 \<or> m = 8 \<or> m = 9 \<or> m = 10 \<or> m = 11 \<Longrightarrow>
    1 \<le> dt \<Longrightarrow>
    dt \<le> (if m = 1 then 28 + l else if m = 3 \<or> m = 5 \<or> m = 8 \<or> m = 10 then 30 else 31) \<Longrightarrow>
    (let w = month_start l m + dt - 1 in
      if w < 31 then 0 else if w < 59 + l then 1 else if w < 90 + l then 2
      else if w < 120 + l then 3 else if w < 151 + l then 4 else if w < 181 + l then 5
      else if w < 212 + l then 6 else if w < 243 + l then 7 else if w < 273 + l then 8
      else if w < 304 + l then 9 else if w < 334 + l then 10 else 11) = m"
  by (elim disjE; simp add: month_start_def)

lemma MonthFromDay_MakeDay:
  assumes "validateDate y m dt"
  shows "MonthFromDay (MakeDay y m dt) = m"
proof -
  have m: "0 \<le> m" "m \<le> 11" and d: "1 \<le> dt" "dt \<le> daysInMonth y m"
    using assms by (simp_all add: validateDate_def)
  have dim: "daysInMonth y m =
      (if m = 1 then 28 + leap_days y
       else if m = 3 \<or> m = 5 \<or> m = 8 \<or> m = 10 then 30 else 31)"
    by (simp add: daysInMonth_def leap_days_def isLeapYearIndex_eq)
  show ?thesis
    unfolding MonthFromDay_def DayWithinYear_MakeDay [OF assms]
      YearFromDay_MakeDay [OF assms] Let_def
    by (rule month_of_within [unfolded Let_def, OF leap_days_cases month_index_cases [OF m] d(1)])
       (use d(2) dim in simp)
qed

lemma DateFromDay_MakeDay:
  assumes "validateDate y m dt"
  shows "DateFromDay (MakeDay y m dt) = dt"
  by (simp add: DateFromDay_def DayWithinYear_MakeDay [OF assms]
      YearFromDay_MakeDay [OF assms] MonthFromDay_MakeDay [OF assms])

lemma digit_roundtrip:
  assumes "is_digit c"
  shows "digit_char (nat (digit_val c)) = c" and "0 \<le> digit_val c" and "digit_val c < 10"
  using assms by (auto simp: is_digit_def digit_val_def digit_char_def)

lemma toString_small: "n < 10 \<Longrightarrow> toString n = [digit_char n]"
  by (simp add: toString.simps [of n])

lemma toString_zero_char: "digit_char 0 = CHR ''0''"
  by (simp add: digit_char_def)

lemma padStart_toString_step:
  assumes "r < 10" and "0 < k"
  shows "padStart (toString (10 * q + r)) (Suc k) (CHR ''0'')
         = padStart (toString q) k (CHR ''0'') @ [digit_char r]"
proof (cases "q = 0")
  case True
  have "replicate k (CHR ''0'') = replicate (k - 1) (CHR ''0'') @ [CHR ''0'']"
    using assms(2) by (cases k) (simp_all add: replicate_append_same)
  then show ?thesis
    using assms True by (simp add: padStart_def toString_small toString_zero_char)
next
  case False
  then have big: "\<not> 10 * q + r < 10" by simp
  have dm: "(10 * q + r) div 10 = q" "(10 * q + r) mod 10 = r"
    using assms(1) by simp_all
  have "toString (10 * q + r) = toString q @ [digit_char r]"
    using big dm by (simp add: toString.simps [of "10 * q + r"])
  then show ?thesis by (simp add: padStart_def)
qed

lemma padStart_one: "n < 10 \<Longrightarrow> padStart (toString n) 1 (CHR ''0'') = [digit_char n]"
  by (simp add: padStart_def toString_small)

lemma addLeadingZeros_nat: "addLeadingZeros (int n) k = padStart (toString n) k (CHR ''0'')"
  by (simp add: addLeadingZeros_def)

lemma render_parse2:
  assumes "digits2 s"
  shows "addLeadingZeros (parseInt s) 2 = s"
proof -
  obtain a b where s: "s = [a, b]"
    using assms by (auto simp: digits2_def length_Suc_conv numeral_2_eq_2)
  have da: "is_digit a" and db: "is_digit b"
    using assms s by (simp_all add: digits2_def)
  define va vb where "va = nat (digit_val a)" and "vb = nat (digit_val b)"
  have lt: "va < 10" "vb < 10"
    using digit_roundtrip(3) [OF da] digit_roundtrip(3) [OF db] by (simp_all add: va_def vb_def)
  have ch: "digit_char va = a" "digit_char vb = b"
    using digit_roundtrip(1) [OF da] digit_roundtrip(1) [OF db] by (simp_all add: va_def vb_def)
  have p: "parseInt s = int (10 * va + vb)"
    using digit_roundtrip(2) [OF da] digit_roundtrip(2) [OF db]
    by (simp add: s parseInt_def va_def vb_def)
  have "addLeadingZeros (parseInt s) 2
        = padStart (toString (10 * va + vb)) (Suc 1) (CHR ''0'')"
    unfolding p addLeadingZeros_nat by (simp only: numeral_2_eq_2 One_nat_def)
  also have "\<dots> = padStart (toString va) 1 (CHR ''0'') @ [digit_char vb]"
    by (rule padStart_toString_step) (use lt in simp_all)
  also have "\<dots> = [digit_char va, digit_char vb]"
    using lt by (simp only: padStart_one append.simps)
  also have "\<dots> = s"
    by (simp only: ch s)
  finally show ?thesis .
qed

lemma render_parse4:
  assumes "length s = 4" and "list_all is_digit s"
  shows "addLeadingZeros (parseInt s) 4 = s"
proof -
  obtain a b c d where s: "s = [a, b, c, d]"
    using assms(1) by (auto simp: length_Suc_conv numeral_eq_Suc)
  have da: "is_digit a" and db: "is_digit b" and dc: "is_digit c" and dd: "is_digit d"
    using assms(2) s by simp_all
  define va vb vc vd where "va = nat (digit_val a)" and "vb = nat (digit_val b)"
    and "vc = nat (digit_val c)" and "vd = nat (digit_val d)"
  have lt: "va < 10" "vb < 10" "vc < 10" "vd < 10"
    using digit_roundtrip(3) [OF da] digit_roundtrip(3) [OF db] digit_roundtrip(3) [OF dc]
      digit_roundtrip(3) [OF dd]
    by (simp_all add: va_def vb_def vc_def vd_def)
  have ch: "digit_char va = a" "digit_char vb = b" "digit_char vc = c" "digit_char vd = d"
    using digit_roundtrip(1) [OF da] digit_roundtrip(1) [OF db] digit_roundtrip(1) [OF dc]
      digit_roundtrip(1) [OF dd]
    by (simp_all add: va_def vb_def vc_def vd_def)
  have p: "parseInt s = int (10 * (10 * (10 * va + vb) + vc) + vd)"
    using digit_roundtrip(2) [OF da] digit_roundtrip(2) [OF db] digit_roundtrip(2) [OF dc]
      digit_roundtrip(2) [OF dd]
    by (simp add: s parseInt_def va_def vb_def vc_def vd_def)
  have n4: "(4::nat) = Suc 3" and n3: "(3::nat) = Suc 2" and n2: "(2::nat) = Suc 1"
    by simp_all
  have "addLeadingZeros (parseInt s) 4
        = padStart (toString (10 * (10 * (10 * va + vb) + vc) + vd)) (Suc 3) (CHR ''0'')"
    unfolding p addLeadingZeros_nat by (simp only: n4 [symmetric])
  also have "\<dots> = padStart (toString (10 * (10 * va + vb) + vc)) 3 (CHR ''0'') @ [digit_char vd]"
    by (rule padStart_toString_step) (use lt in simp_all)
  also have "padStart (toString (10 * (10 * va + vb) + vc)) 3 (CHR ''0'')
        = padStart (toString (10 * va + vb)) 2 (CHR ''0'') @ [digit_char vc]"
    unfolding n3 by (rule padStart_toString_step) (use lt in simp_all)
  also have "padStart (toString (10 * va + vb)) 2 (CHR ''0'')
        = padStart (toString va) 1 (CHR ''0'') @ [digit_char vb]"
    unfolding n2 by (rule padStart_toString_step) (use lt in simp_all)
  also have "padStart (toString va) 1 (CHR ''0'') = [digit_char va]"
    using lt by (simp only: padStart_one)
  finally have "addLeadingZeros (parseInt s) 4
      = [digit_char va] @ [digit_char vb] @ [digit_char vc] @ [digit_char vd]"
    by simp
  then show ?thesis by (simp only: ch s append.simps)
qed

lemma parseInt_nonneg: "list_all is_digit s \<Longrightarrow> 0 \<le> a \<Longrightarrow> 0 \<le> foldl (\<lambda>a c. 10 * a + digit_val c) a s"
  by (induction s arbitrary: a) (auto simp: digit_roundtrip(2))

lemma split_on_no_delim:
  assumes "\<forall>c \<in> set s. \<not> p c"
  shows "split_on p s = [s]"
  using assms by (induction s) simp_all

lemma split_on_append_delim:
  assumes "\<forall>c \<in> set s. \<not> p c" and "p c"
  shows "split_on p (s @ c # t) = s # split_on p t"
  using assms by (induction s) (simp_all split: list.splits)

lemma digit_not_delimiter: "is_digit c \<Longrightarrow> \<not> dateTimeDelimiter c"
  by (auto simp: is_digit_def dateTimeDelimiter_def)

lemma calendar_token_chars:
  assumes "calendar_token s"
  shows "\<forall>c \<in> set s. is_digit c \<or> c = CHR ''-''"
proof -
  obtain c0 c1 c2 c3 c4 c5 c6 c7 c8 c9 where s: "s = [c0, c1, c2, c3, c4, c5, c6, c7, c8, c9]"
    using assms by (auto simp: calendar_token_def length_Suc_conv numeral_eq_Suc)
  show ?thesis
    using assms unfolding s by (simp add: calendar_token_def digits2_def)
qed

lemma calendar_token_no_delim:
  assumes "calendar_token s"
  shows "\<forall>c \<in> set s. \<not> dateTimeDelimiter c"
  using calendar_token_chars [OF assms] digit_not_delimiter
  by (auto simp: dateTimeDelimiter_def)

lemma calendar_token_no_T:
  assumes "calendar_token s"
  shows "CHR ''T'' \<notin> set s"
  using calendar_token_no_delim [OF assms] by (auto simp: dateTimeDelimiter_def)

lemma isoStringOf_calendar:
  assumes "calendar_token s"
  shows "isoStringOf s = s @ ''T00:00:00''"
  using calendar_token_no_T [OF assms] by (simp add: isoStringOf_def)

lemma parseTime_midnight: "parseTime ''00:00:00'' = Some 0"
  by (simp add: parseTime_def digits2_def is_digit_def parseInt_def digit_val_def validateTime_def)

lemma split_on_midnight: "split_on dateTimeDelimiter ''00:00:00'' = [''00:00:00'']"
  by (rule split_on_no_delim) (simp add: dateTimeDelimiter_def)

lemma example_parseISO_calendar:
  assumes "calendar_token s"
  shows "example_parseISO (s @ ''T00:00:00'') = calendarMidnight s"
proof -
  have "split_on dateTimeDelimiter (s @ CHR ''T'' # ''00:00:00'') = s # split_on dateTimeDelimiter ''00:00:00''"
    by (rule split_on_append_delim [OF calendar_token_no_delim [OF assms]])
       (simp add: dateTimeDelimiter_def)
  then have "split_on dateTimeDelimiter (s @ ''T00:00:00'') = [s, ''00:00:00'']"
    unfolding split_on_midnight .
  then show ?thesis
    by (simp add: example_parseISO_def parseTime_midnight split: option.splits)
qed

lemma parseInt4_bounds:
  assumes "length s = 4" and "list_all is_digit s"
  shows "0 \<le> parseInt s" and "parseInt s \<le> 9999"
proof -
  obtain a b c d where s: "s = [a, b, c, d]"
    using assms(1) by (auto simp: length_Suc_conv numeral_eq_Suc)
  have da: "is_digit a" and db: "is_digit b" and dc: "is_digit c" and dd: "is_digit d"
    using assms(2) s by simp_all
  have p: "parseInt s = 10 * (10 * (10 * digit_val a + digit_val b) + digit_val c) + digit_val d"
    by (simp add: s parseInt_def)
  note b = digit_roundtrip(2,3) [OF da] digit_roundtrip(2,3) [OF db]
      digit_roundtrip(2,3) [OF dc] digit_roundtrip(2,3) [OF dd]
  show "0 \<le> parseInt s"
    unfolding p using b by (simp add: algebra_simps)
  show "parseInt s \<le> 9999"
    unfolding p using b by (simp add: algebra_simps)
qed

lemma calendarMidnight_fields:
  assumes "calendarMidnight s = Some t"
  shows "calendar_token s"
    and "validateDate (tokenYear s) (parseInt (take 2 (drop 5 s)) - 1) (parseInt (drop 8 s))"
    and "t = MakeDay (tokenYear s) (parseInt (take 2 (drop 5 s)) - 1) (parseInt (drop 8 s)) * msPerDay"
  using assms by (auto simp: calendarMidnight_def Let_def split: if_splits)

lemma DayFromYear_bounds: "DayFromYear 0 = - 719528" "DayFromYear 10000 = 2932897"
  by (simp_all add: DayFromYear_def)

lemma calendarMidnight_range:
  assumes "calendarMidnight s = Some t"
  shows "- 62167219200000 \<le> t" and "t < 253402300800000"
proof -
  note f = calendarMidnight_fields [OF assms]
  let ?y = "tokenYear s"
  let ?N = "MakeDay ?y (parseInt (take 2 (drop 5 s)) - 1) (parseInt (drop 8 s))"
  have y: "0 \<le> ?y" "?y \<le> 9999"
    using f(1) parseInt4_bounds [of "take 4 s"]
    by (simp_all add: calendar_token_def tokenYear_def)
  have lo: "DayFromYear ?y \<le> ?N"
    using within_year_bounds(1) [OF f(2)] by (simp add: MakeDay_def)
  have "DayFromYear (?y + 1) = DayFromYear ?y + 365 + leap_days ?y"
    by (simp add: DayFromYear_step leap_days_def)
  then have hi: "?N < DayFromYear (?y + 1)"
    using within_year_bounds(2) [OF f(2)] by (simp add: MakeDay_def)
  have "DayFromYear 0 \<le> DayFromYear ?y" and "DayFromYear (?y + 1) \<le> DayFromYear 10000"
    using y by (auto intro: DayFromYear_mono)
  with lo hi have "- 719528 \<le> ?N" and "?N < 2932897"
    by (simp_all add: DayFromYear_bounds)
  then show "- 62167219200000 \<le> t" and "t < 253402300800000"
    unfolding f(3) msPerDay_def by simp_all
qed

lemma Day_of_midnight: "Day (n * msPerDay) = n"
  by (simp add: Day_def msPerDay_def)

lemma calendar_roundtrip:
  assumes "calendarMidnight s = Some t" and "0 < tokenYear s"
  shows "format_yyyy_MM_dd t = s"
    and "format_yyyyMMdd t = take 4 s @ take 2 (drop 5 s) @ drop 8 s"
proof -
  note f = calendarMidnight_fields [OF assms(1)]
  let ?y = "tokenYear s"
  let ?m = "parseInt (take 2 (drop 5 s)) - 1"
  let ?d = "parseInt (drop 8 s)"
  have day: "Day t = MakeDay ?y ?m ?d"
    unfolding f(3) by (rule Day_of_midnight)
  have Y: "YearFromDay (Day t) = ?y" and M: "MonthFromDay (Day t) = ?m"
    and D: "DateFromDay (Day t) = ?d"
    unfolding day
    by (rule YearFromDay_MakeDay [OF f(2)], rule MonthFromDay_MakeDay [OF f(2)],
        rule DateFromDay_MakeDay [OF f(2)])
  have tok: "length (take 4 s) = 4" "list_all is_digit (take 4 s)"
    "digits2 (take 2 (drop 5 s))" "digits2 (drop 8 s)" "s ! 4 = CHR ''-''" "s ! 7 = CHR ''-''"
    "length s = 10"
    using f(1) by (simp_all add: calendar_token_def)
  have y4: "fmt_yyyy t = take 4 s"
    using render_parse4 [OF tok(1,2)] assms(2) by (simp add: fmt_yyyy_def Y tokenYear_def)
  have m2: "fmt_MM t = take 2 (drop 5 s)"
    using render_parse2 [OF tok(3)] by (simp add: fmt_MM_def M)
  have d2: "fmt_dd t = drop 8 s"
    using render_parse2 [OF tok(4)] by (simp add: fmt_dd_def D)
  show "format_yyyyMMdd t = take 4 s @ take 2 (drop 5 s) @ drop 8 s"
    by (simp add: format_yyyyMMdd_def y4 m2 d2)
  obtain c0 c1 c2 c3 c4 c5 c6 c7 c8 c9 where s: "s = [c0, c1, c2, c3, c4, c5, c6, c7, c8, c9]"
    using tok(7) by (auto simp: length_Suc_conv numeral_eq_Suc)
  have "take 4 s @ ''-'' @ take 2 (drop 5 s) @ ''-'' @ drop 8 s = s"
    using tok(5,6) unfolding s by simp
  then show "format_yyyy_MM_dd t = s"
    by (simp add: format_yyyy_MM_dd_def y4 m2 d2)
qed

lemma addHours_roundtrip:
  assumes "- 62167219200000 \<le> t" and "t < 253402300800000"
  shows "addHours (Some t) (- 9) = Some (t - 32400000)"
    and "addHours (Some (t - 32400000)) 9 = Some t"
  using assms by (simp_all add: addHours_def TimeClip_def msPerHour_def)

lemma parseDateTime_calendar:
  assumes "calendar_token s" and "parseISO pl (s @ ''T00:00:00'') = calendarMidnight s"
  shows "parseDateTime pl s
           = (case calendarMidnight s of None \<Rightarrow> None | Some t \<Rightarrow> Some (Some (t - 32400000)))"
proof (cases "calendarMidnight s")
  case None
  then show ?thesis
    using assms by (simp add: parseDateTime_def isoStringOf_calendar)
next
  case (Some t)
  then show ?thesis
    using assms addHours_roundtrip(1) [OF calendarMidnight_range [OF Some]]
    by (simp add: parseDateTime_def isoStringOf_calendar)
qed

section \<open>Facts about a completed export\<close>

lemma sortMessages_Some:
  "sortMessages pl ms = Some ordered \<Longrightarrow> ordered = sort_key (ts_key pl) ms"
  by (simp add: sortMessages_def split: if_splits)

lemma processThreads_count:
  "processThreads pl api us c n i threads st = Inr st' \<Longrightarrow>
   totalMessageCount st' =
     totalMessageCount st + sum_list (map length (fetchedReplies api (repliesCalls st) c threads))"
proof (induction threads arbitrary: i st)
  case Nil
  then show ?case by simp
next
  case (Cons msg rest)
  obtain replies calls' evs where g:
    "getThreadReplies api (repliesCalls st) c (threadTsOf msg) = (replies, calls', evs)"
    by (cases "getThreadReplies api (repliesCalls st) c (threadTsOf msg)") auto
  from Cons.prems g obtain plain markdown where
    ins: "insertReplies pl us msg replies (allMessages st) (allMessagesMarkdown st) = Some (plain, markdown)"
    and rest: "processThreads pl api us c n (i + 1) rest
        \<lparr>allMessages = plain, allMessagesMarkdown = markdown,
         totalMessageCount = totalMessageCount st + length replies,
         repliesCalls = calls', trace = trace st @ evs @ progressEvents n i\<rparr> = Inr st'"
    by (auto split: option.splits)
  from Cons.IH [OF rest] g show ?case by simp
qed

lemma threadPhase_count:
  assumes "threadPhase pl api us c skip threads st = Inr st'"
  shows "totalMessageCount st' =
     totalMessageCount st
     + (if skip then 0 else sum_list (map length (fetchedReplies api (repliesCalls st) c threads)))"
proof (cases "0 < length threads \<and> \<not> skip")
  case True
  let ?st0 = "st\<lparr>trace := trace st @ [Respond (ThreadEstimate (length threads)
                 (estimateMinutes (length threads)))]\<rparr>"
  from assms True obtain st2 where
    run: "processThreads pl api us c (length threads) 0 threads ?st0 = Inr st2"
    and st': "st' = st2\<lparr>trace := trace st2 @ [Respond (ThreadsCompleted (length threads))]\<rparr>"
    by (auto simp: threadPhase_def Let_def split: sum.splits)
  from processThreads_count [OF run] st' True show ?thesis by simp
next
  case False
  then have "skip \<or> threads = []" by auto
  moreover from assms False have "totalMessageCount st' = totalMessageCount st"
    by (auto simp: threadPhase_def Let_def split: if_splits)
  ultimately show ?thesis by auto
qed

lemma writeExport_Exported:
  assumes "writeExport w c name startDate endDate st = (evs, Exported x)"
  shows "\<exists>jstNow jstStartDate jstEndDate.
      addHours (Some (w_now w)) 9 = Some jstNow \<and> addHours startDate 9 = Some jstStartDate
      \<and> addHours endDate 9 = Some jstEndDate
      \<and> x_baseFileName x = name @ ''_'' @ format_yyyyMMdd jstStartDate @ ''-'' @ format_yyyyMMdd jstEndDate
      \<and> x_txtFileName x = x_baseFileName x @ ''.txt''
      \<and> x_mdFileName x = x_baseFileName x @ ''.md''
      \<and> a_header (x_contentText x) =
            \<lparr>h_channelName = name, h_from = format_yyyy_MM_dd jstStartDate,
             h_to = format_yyyy_MM_dd jstEndDate,
             h_exportedAt = format_yyyy_MM_dd_HH_mm_ss jstNow, h_count = totalMessageCount st\<rparr>
      \<and> a_header (x_contentMarkdown x) = a_header (x_contentText x)
      \<and> a_lines (x_contentText x) = allMessages st
      \<and> a_lines (x_contentMarkdown x) = allMessagesMarkdown st
      \<and> u_count (x_upload x) = totalMessageCount st
      \<and> u_filename (x_upload x) = x_txtFileName x
      \<and> u_from (x_upload x) = format_yyyy_MM_dd jstStartDate
      \<and> u_to (x_upload x) = format_yyyy_MM_dd jstEndDate
      \<and> evs = trace st @ [WriteFile (x_txtFileName x) (x_contentText x),
                          WriteFile (x_mdFileName x) (x_contentMarkdown x), UploadCall (x_upload x)]"
  using assms by (auto simp: writeExport_def Let_def split: option.splits)

lemma afterFetch_Exported:
  assumes "afterFetch pl w c skip startDate endDate messages hevs = (evs, Exported x)"
  obtains ordered plain markdown st where
    "messages \<noteq> []"
    "sortMessages pl messages = Some ordered"
    "those (map (\<lambda>msg. formatMessage pl msg (getUsersInfo (w_users_list w)) []) ordered) = Some plain"
    "those (map (\<lambda>msg. formatMessageMarkdown pl msg (getUsersInfo (w_users_list w)) []) ordered)
       = Some markdown"
    "threadPhase pl (w_replies w) (getUsersInfo (w_users_list w)) c skip (filter isThreadParent ordered)
       \<lparr>allMessages = plain, allMessagesMarkdown = markdown, totalMessageCount = length ordered,
        repliesCalls = 0, trace = hevs @ [UsersListCall, InfoCall c]\<rparr> = Inr st"
    "writeExport w c (channelNameOf w c) startDate endDate st = (evs, Exported x)"
proof -
  have ne: "messages \<noteq> []"
    using assms by (auto simp: afterFetch_def)
  obtain ordered where o: "sortMessages pl messages = Some ordered"
    using assms ne by (cases "sortMessages pl messages") (auto simp: afterFetch_def Let_def)
  let ?us = "getUsersInfo (w_users_list w)"
  obtain plain where p: "those (map (\<lambda>msg. formatMessage pl msg ?us []) ordered) = Some plain"
    using assms ne o
    by (cases "those (map (\<lambda>msg. formatMessage pl msg ?us []) ordered)")
       (auto simp: afterFetch_def Let_def)
  obtain markdown where m:
    "those (map (\<lambda>msg. formatMessageMarkdown pl msg ?us []) ordered) = Some markdown"
    using assms ne o p
    by (cases "those (map (\<lambda>msg. formatMessageMarkdown pl msg ?us []) ordered)")
       (auto simp: afterFetch_def Let_def)
  let ?st0 = "\<lparr>allMessages = plain, allMessagesMarkdown = markdown,
               totalMessageCount = length ordered, repliesCalls = 0,
               trace = hevs @ [UsersListCall, InfoCall c]\<rparr>"
  obtain st where t: "threadPhase pl (w_replies w) ?us c skip (filter isThreadParent ordered) ?st0 = Inr st"
    using assms ne o p m
    by (cases "threadPhase pl (w_replies w) ?us c skip (filter isThreadParent ordered) ?st0")
       (auto simp: afterFetch_def Let_def)
  have "writeExport w c (channelNameOf w c) startDate endDate st = (evs, Exported x)"
    using assms ne o p m t by (simp add: afterFetch_def Let_def)
  with ne o p m t that show thesis by blast
qed

lemma processExportAsync_Exported:
  assumes "exported (processExportAsync pl w args c) = Some x"
  obtains startDate endDate messages hevs evs where
    "2 \<le> length args"
    "parseDateTime pl (args ! 0) = Some startDate"
    "parseDateTime pl (args ! 1) = Some endDate"
    "\<not> date_ge startDate endDate"
    "fetchHistory (w_history w) c (secondsString startDate) (secondsString endDate)
       0 None [] [Respond Exporting] = Some (Inr messages, hevs)"
    "afterFetch pl w c (''--no-threads'' \<in> set args) startDate endDate messages hevs
       = (evs, Exported x)"
    "processExportAsync pl w args c = Some (evs, Exported x)"
proof -
  obtain evs where r: "processExportAsync pl w args c = Some (evs, Exported x)"
    using assms by (auto simp: exported_def split: option.splits prod.splits outcome.splits)
  have len: "2 \<le> length args"
    using r by (auto simp: processExportAsync_def split: if_splits)
  obtain startDate where s: "parseDateTime pl (args ! 0) = Some startDate"
    using r len by (cases "parseDateTime pl (args ! 0)") (auto simp: processExportAsync_def Let_def)
  obtain endDate where e: "parseDateTime pl (args ! 1) = Some endDate"
    using r len s by (cases "parseDateTime pl (args ! 1)") (auto simp: processExportAsync_def Let_def)
  have lt: "\<not> date_ge startDate endDate"
    using r len s e by (auto simp: processExportAsync_def Let_def split: if_splits)
  let ?f = "fetchHistory (w_history w) c (secondsString startDate) (secondsString endDate)
       0 None [] [Respond Exporting]"
  from r len s e lt have "(case ?f of None \<Rightarrow> None
      | Some (Inl error, evs) \<Rightarrow> Some (evs @ [Respond ExportError], Failed (RemoteError error))
      | Some (Inr messages, evs) \<Rightarrow>
          Some (afterFetch pl w c (''--no-threads'' \<in> set args) startDate endDate messages evs))
      = Some (evs, Exported x)"
    by (simp add: processExportAsync_def Let_def)
  then obtain messages hevs where f: "?f = Some (Inr messages, hevs)"
    and a: "afterFetch pl w c (''--no-threads'' \<in> set args) startDate endDate messages hevs
       = (evs, Exported x)"
    by (auto split: option.splits prod.splits sum.splits)
  from len s e lt f a r that show thesis by blast
qed

lemma primaryMessages_Exported:
  assumes "exported (processExportAsync pl w args c) = Some x"
  obtains startDate endDate messages hevs evs where
    "primaryMessages pl w args c = Some messages"
    "parseDateTime pl (args ! 0) = Some startDate"
    "parseDateTime pl (args ! 1) = Some endDate"
    "afterFetch pl w c (''--no-threads'' \<in> set args) startDate endDate messages hevs
       = (evs, Exported x)"
proof -
  obtain startDate endDate messages hevs evs where
    "2 \<le> length args"
    and s: "parseDateTime pl (args ! 0) = Some startDate"
    and e: "parseDateTime pl (args ! 1) = Some endDate"
    and "\<not> date_ge startDate endDate"
    and f: "fetchHistory (w_history w) c (secondsString startDate) (secondsString endDate)
       0 None [] [Respond Exporting] = Some (Inr messages, hevs)"
    and a: "afterFetch pl w c (''--no-threads'' \<in> set args) startDate endDate messages hevs
       = (evs, Exported x)"
    and "processExportAsync pl w args c = Some (evs, Exported x)"
    by (rule processExportAsync_Exported [OF assms])
  have "primaryMessages pl w args c = Some messages"
    using s e f by (simp add: primaryMessages_def)
  from this s e a show thesis by (rule that)
qed

section \<open>Evaluation of the examples\<close>

lemma format_fields:
  assumes "validateDate y m d" and "Day t = MakeDay y m d" and "0 < y"
  shows "format_yyyy_MM_dd t
           = addLeadingZeros y 4 @ ''-'' @ addLeadingZeros (m + 1) 2 @ ''-'' @ addLeadingZeros d 2"
    and "format_yyyyMMdd t = addLeadingZeros y 4 @ addLeadingZeros (m + 1) 2 @ addLeadingZeros d 2"
    and "format_yyyy_MM_dd_HH_mm_ss t
           = addLeadingZeros y 4 @ ''-'' @ addLeadingZeros (m + 1) 2 @ ''-'' @ addLeadingZeros d 2
             @ '' '' @ addLeadingZeros (HourFromTime t) 2 @ '':'' @ addLeadingZeros (MinFromTime t) 2
             @ '':'' @ addLeadingZeros (SecFromTime t) 2"
proof -
  have "YearFromDay (Day t) = y" and "MonthFromDay (Day t) = m" and "DateFromDay (Day t) = d"
    unfolding assms(2)
    by (rule YearFromDay_MakeDay [OF assms(1)], rule MonthFromDay_MakeDay [OF assms(1)],
        rule DateFromDay_MakeDay [OF assms(1)])
  then show "format_yyyy_MM_dd t
           = addLeadingZeros y 4 @ ''-'' @ addLeadingZeros (m + 1) 2 @ ''-'' @ addLeadingZeros d 2"
    and "format_yyyyMMdd t = addLeadingZeros y 4 @ addLeadingZeros (m + 1) 2 @ addLeadingZeros d 2"
    and "format_yyyy_MM_dd_HH_mm_ss t
           = addLeadingZeros y 4 @ ''-'' @ addLeadingZeros (m + 1) 2 @ ''-'' @ addLeadingZeros d 2
             @ '' '' @ addLeadingZeros (HourFromTime t) 2 @ '':'' @ addLeadingZeros (MinFromTime t) 2
             @ '':'' @ addLeadingZeros (SecFromTime t) 2"
    using assms(3)
    by (simp_all add: format_yyyy_MM_dd_def format_yyyyMMdd_def format_yyyy_MM_dd_HH_mm_ss_def
          fmt_yyyy_def fmt_MM_def fmt_dd_def fmt_HH_def fmt_mm_def fmt_ss_def)
qed

lemma addLeadingZeros_examples:
  "addLeadingZeros 0 2 = ''00''" "addLeadingZeros 1 2 = ''01''" "addLeadingZeros 2 2 = ''02''"
  "addLeadingZeros 9 2 = ''09''" "addLeadingZeros 31 2 = ''31''"
  "addLeadingZeros 2024 4 = ''2024''"
  by (simp_all add: addLeadingZeros_def padStart_def toString.simps digit_char_def)

lemma day_examples:
  "validateDate 2024 0 1"
  "validateDate 2024 0 2"
  "validateDate 2024 0 31"
  "validateDate 2024 1 1"
  "Day 1704067200000 = MakeDay 2024 0 1"
  "Day 1704099600000 = MakeDay 2024 0 1"
  "Day 1704099660000 = MakeDay 2024 0 1"
  "Day 1704099720000 = MakeDay 2024 0 1"
  "Day 1704105000000 = MakeDay 2024 0 1"
  "Day 1704153600000 = MakeDay 2024 0 2"
  "Day 1706659200000 = MakeDay 2024 0 31"
  "Day 1706778000000 = MakeDay 2024 1 1"
  by (simp_all add: Day_def MakeDay_def DayFromYear_def msPerDay_def leap_days_def
        InLeapYear_def month_start_def validateDate_def daysInMonth_def isLeapYearIndex_def)

lemma format_examples:
  "format_yyyy_MM_dd 1704067200000 = ''2024-01-01''"
  "format_yyyyMMdd 1704067200000 = ''20240101''"
  "format_yyyy_MM_dd 1706659200000 = ''2024-01-31''"
  "format_yyyyMMdd 1706659200000 = ''20240131''"
  "format_yyyy_MM_dd 1704105000000 = ''2024-01-01''"
  "format_yyyy_MM_dd 1704153600000 = ''2024-01-02''"
  "format_yyyy_MM_dd_HH_mm_ss 1704099600000 = ''2024-01-01 09:00:00''"
  "format_yyyy_MM_dd_HH_mm_ss 1704099660000 = ''2024-01-01 09:01:00''"
  "format_yyyy_MM_dd_HH_mm_ss 1704099720000 = ''2024-01-01 09:02:00''"
  "format_yyyy_MM_dd_HH_mm_ss 1706778000000 = ''2024-02-01 09:00:00''"
  using format_fields [OF day_examples(1) day_examples(5)]
    format_fields [OF day_examples(3) day_examples(11)]
    format_fields [OF day_examples(1) day_examples(9)]
    format_fields [OF day_examples(2) day_examples(10)]
    format_fields [OF day_examples(1) day_examples(6)]
    format_fields [OF day_examples(1) day_examples(7)]
    format_fields [OF day_examples(1) day_examples(8)]
    format_fields [OF day_examples(4) day_examples(12)]
  by (simp_all add: addLeadingZeros_examples HourFromTime_def MinFromTime_def SecFromTime_def
        msPerHour_def)

lemma addHours_examples:
  "addHours (Some 1706745600000) 9 = Some 1706778000000"
  "addHours (Some 1704034800000) 9 = Some 1704067200000"
  "addHours (Some 1706626800000) 9 = Some 1706659200000"
  "addHours (Some 1704072600000) 9 = Some 1704105000000"
  "addHours (Some 1704121200000) 9 = Some 1704153600000"
  by (simp_all add: addHours_def TimeClip_def msPerHour_def)

lemma example_platform_fields:
  "parseISO example_platform = example_parseISO"
  "parseFloat example_platform = example_parseFloat"
  by (simp_all add: example_platform_def)

lemma parseDateTime_examples:
  "parseDateTime example_platform ''2024-13-01'' = None"
  "parseDateTime example_platform ''2024-01-01'' = Some (Some 1704034800000)"
  "parseDateTime example_platform ''2024-01-02'' = Some (Some 1704121200000)"
  "parseDateTime example_platform ''2024-01-31'' = Some (Some 1706626800000)"
  "parseDateTime example_platform ''2024-02-01'' = Some (Some 1706713200000)"
  "parseDateTime example_platform ''2024-01-01T10:30'' = Some (Some 1704072600000)"
  by code_simp+

lemma jstTimestamp_examples:
  "jstTimestamp example_platform parent1 = Some 1704099600000"
  "jstTimestamp example_platform reply1 = Some 1704099660000"
  "jstTimestamp example_platform reply2 = Some 1704099720000"
  by code_simp+

lemma example_fields:
  "msg_ts parent1 = ''1704067200.000100''"
  "msg_user parent1 = Some ''U1''" "msg_text parent1 = Some ''hello''"
  "msg_user reply1 = Some ''U2''" "msg_text reply1 = Some ''first''"
  "msg_user reply2 = Some ''U1''" "msg_text reply2 = Some ''second''"
  "msg_thread_ts parent1 = Some ''1704067200.000100''"
  by (simp_all add: parent1_def reply1_def reply2_def)

lemma example_lines:
  "formatMessage example_platform parent1 Map.empty [] = Some ''[2024-01-01 09:00:00] U1: hello''"
  "formatMessage example_platform reply1 Map.empty reply_indent
     = Some (reply_indent @ ''[2024-01-01 09:01:00] U2: first'')"
  "formatMessage example_platform reply2 Map.empty reply_indent
     = Some (reply_indent @ ''[2024-01-01 09:02:00] U1: second'')"
  by (simp_all add: formatMessage_def jstTimestamp_examples format_examples userName_def
        users_get_def js_or_def js_or_lit_def example_fields)

lemma example_blocks:
  "formatMessageMarkdown example_platform parent1 Map.empty [] = Some parent1_block"
  by (simp add: formatMessageMarkdown_def jstTimestamp_examples format_examples userName_def
        users_get_def js_or_def js_or_lit_def example_fields Let_def parent1_block_def)

lemma fetchHistory_one_page:
  "fetchHistory (one_page ms) c a b n cur acc evs
     = Some (Inr (acc @ ms), evs @ [HistoryCall c a b cur])"
  by (subst fetchHistory.simps) (simp add: one_page_def)

lemma thread_world_fields:
  "w_history thread_world = one_page [parent1]"
  "w_replies thread_world = thread_of [parent1, reply1, reply2]"
  "w_users_list thread_world = Inr (Some [])"
  "w_info thread_world = Inr (Some ''general'')"
  "w_now thread_world = 1706745600000"
  "w_domain thread_world = ''example.test''"
  by (simp_all add: thread_world_def world_of_def)

lemma getThreadReplies_thread_of:
  "getThreadReplies (thread_of ms) n c t = (slice1 (Some ms), n + 1, [Sleep 5000, RepliesCall c t])"
  by (simp add: getThreadReplies_def thread_of_def)

lemma parent1_sorted: "sortMessages example_platform [parent1] = Some [parent1]"
  using jstTimestamp_examples(1)
  by (auto simp: sortMessages_def jstTimestamp_def split: option.splits)

lemma parent1_is_parent: "isThreadParent parent1"
  by (simp add: isThreadParent_def parent1_def)

lemma parent1_not_found:
  "findIndex (\<lambda>m. str_includes m (msg_ts parent1)) [''[2024-01-01 09:00:00] U1: hello''] = None"
  by (simp add: example_fields)

lemma parent1_insert:
  "insertReplies pl us parent1 rs [''[2024-01-01 09:00:00] U1: hello''] md
     = Some ([''[2024-01-01 09:00:00] U1: hello''], md)"
  unfolding insertReplies_def parent1_not_found by simp


lemma estimateMinutes_div: "estimateMinutes k = - ((- (int k * 5)) div 60)"
proof -
  have "(of_nat (k * 5) :: rat) / 60 = of_int (int k * 5) / of_int 60"
    by simp
  then show ?thesis
    unfolding estimateMinutes_def by (simp only: ceiling_divide_eq_div)
qed

lemma estimateMinutes_examples:
  "estimateMinutes 0 = 0" "estimateMinutes 1 = 1" "estimateMinutes (Suc 0) = 1"
  "estimateMinutes 2 = 1" "estimateMinutes 12 = 1" "estimateMinutes 13 = 2"
  by (simp_all add: estimateMinutes_div)

lemma thread_world_threads:
  "threadPhase pl (thread_of [parent1, reply1, reply2]) us ''C1'' False [parent1]
     \<lparr>allMessages = [''[2024-01-01 09:00:00] U1: hello''], allMessagesMarkdown = md,
      totalMessageCount = k, repliesCalls = 0, trace = evs\<rparr>
   = Inr \<lparr>allMessages = [''[2024-01-01 09:00:00] U1: hello''], allMessagesMarkdown = md,
          totalMessageCount = k + 2, repliesCalls = 1,
          trace = evs @ [Respond (ThreadEstimate 1 1),
                        Sleep 5000, RepliesCall ''C1'' ''1704067200.000100'',
                        LogProcessed 1 1, Respond (ThreadsCompleted 1)]\<rparr>"
  by (simp add: threadPhase_def Let_def getThreadReplies_thread_of slice1_def parent1_insert
        threadTsOf_def example_fields progressEvents_def estimateMinutes_examples)

lemma thread_world_skipped:
  "threadPhase pl api us ''C1'' True [parent1]
     \<lparr>allMessages = ls, allMessagesMarkdown = md,
      totalMessageCount = k, repliesCalls = 0, trace = evs\<rparr>
   = Inr \<lparr>allMessages = ls, allMessagesMarkdown = md,
          totalMessageCount = k, repliesCalls = 0,
          trace = evs @ [Respond (ThreadsSkipped 1)]\<rparr>"
  by (simp add: threadPhase_def Let_def)

lemma getUsersInfo_no_members: "getUsersInfo (Inr (Some [])) = Map.empty"
  by (simp add: getUsersInfo_def)

text \<open>
  The run on a world whose history is the one page with the parent, whose replies
  endpoint answers with the thread, and whose user listing is empty.
\<close>

lemma thread_after:
  assumes "w_replies w = thread_of [parent1, reply1, reply2]"
    and "w_users_list w = Inr (Some [])"
  shows "afterFetch example_platform w ''C1'' False a b [parent1] hevs
   = writeExport w ''C1'' (channelNameOf w ''C1'') a b
       \<lparr>allMessages = [''[2024-01-01 09:00:00] U1: hello''],
        allMessagesMarkdown = [parent1_block],
        totalMessageCount = 3, repliesCalls = 1,
        trace = hevs @ [UsersListCall, InfoCall ''C1'', Respond (ThreadEstimate 1 1),
                        Sleep 5000, RepliesCall ''C1'' ''1704067200.000100'',
                        LogProcessed 1 1, Respond (ThreadsCompleted 1)]\<rparr>"
  by (simp add: afterFetch_def Let_def assms getUsersInfo_no_members
        parent1_sorted example_lines example_blocks parent1_is_parent
        thread_world_threads numeral_3_eq_3)

lemma thread_after_skip:
  assumes "w_users_list w = Inr (Some [])"
  shows "afterFetch example_platform w ''C1'' True a b [parent1] hevs
   = writeExport w ''C1'' (channelNameOf w ''C1'') a b
       \<lparr>allMessages = [''[2024-01-01 09:00:00] U1: hello''],
        allMessagesMarkdown = [parent1_block],
        totalMessageCount = 1, repliesCalls = 0,
        trace = hevs @ [UsersListCall, InfoCall ''C1'', Respond (ThreadsSkipped 1)]\<rparr>"
  by (simp add: afterFetch_def Let_def assms getUsersInfo_no_members
        parent1_sorted example_lines example_blocks parent1_is_parent
        thread_world_skipped)

lemma thread_run:
  assumes "w_history w = one_page [parent1]"
    and "parseDateTime example_platform s = Some a"
    and "parseDateTime example_platform e = Some b"
    and "\<not> date_ge a b"
  shows "processExportAsync example_platform w (s # e # opts) ''C1''
     = Some (afterFetch example_platform w ''C1''
               (''--no-threads'' \<in> set (s # e # opts)) a b [parent1]
               [Respond Exporting, HistoryCall ''C1'' (secondsString a) (secondsString b) None])"
  using assms
  by (simp add: processExportAsync_def Let_def fetchHistory_one_page)

lemma thread_primary:
  assumes "w_history w = one_page [parent1]"
    and "parseDateTime example_platform s = Some a"
    and "parseDateTime example_platform e = Some b"
  shows "primaryMessages example_platform w (s # e # opts) ''C1'' = Some [parent1]"
  using assms by (simp add: primaryMessages_def fetchHistory_one_page)

lemma january_window:
  "\<not> date_ge (Some 1704034800000) (Some 1706626800000)"
  by (simp add: date_ge_def)

lemma january_export:
  assumes "w_now w = 1706745600000"
  shows "\<exists>evs x. writeExport w c name (Some 1704034800000) (Some 1706626800000) st = (evs, Exported x)
     \<and> x_baseFileName x = name @ ''_20240101-20240131''
     \<and> x_txtFileName x = name @ ''_20240101-20240131.txt''
     \<and> x_mdFileName x = name @ ''_20240101-20240131.md''
     \<and> a_header (x_contentText x) =
          \<lparr>h_channelName = name, h_from = ''2024-01-01'', h_to = ''2024-01-31'',
           h_exportedAt = ''2024-02-01 09:00:00'', h_count = totalMessageCount st\<rparr>
     \<and> a_header (x_contentMarkdown x) = a_header (x_contentText x)
     \<and> a_lines (x_contentText x) = allMessages st
     \<and> a_lines (x_contentMarkdown x) = allMessagesMarkdown st
     \<and> u_count (x_upload x) = totalMessageCount st
     \<and> evs = trace st @ [WriteFile (x_txtFileName x) (x_contentText x),
                         WriteFile (x_mdFileName x) (x_contentMarkdown x),
                         UploadCall (x_upload x)]"
  by (simp add: writeExport_def Let_def assms addHours_examples format_examples)

lemma world_fields:
  "w_history (world_of h r) = h" "w_replies (world_of h r) = r"
  "w_users_list (world_of h r) = Inr (Some [])" "w_info (world_of h r) = Inr (Some ''general'')"
  "w_now (world_of h r) = 1706745600000" "w_domain (world_of h r) = ''example.test''"
  by (simp_all add: world_of_def)



text \<open>
  The January run on a world with that history, that thread and that user listing, with
  and without the thread replies.
\<close>

lemma january_run:
  assumes h: "w_history w = one_page [parent1]"
    and r: "w_replies w = thread_of [parent1, reply1, reply2]"
    and u: "w_users_list w = Inr (Some [])"
    and n: "w_now w = 1706745600000"
  shows "\<exists>evs x. processExportAsync example_platform w [''2024-01-01'', ''2024-01-31''] ''C1''
        = Some (evs, Exported x)
     \<and> x_baseFileName x = channelNameOf w ''C1'' @ ''_20240101-20240131''
     \<and> x_txtFileName x = channelNameOf w ''C1'' @ ''_20240101-20240131.txt''
     \<and> x_mdFileName x = channelNameOf w ''C1'' @ ''_20240101-20240131.md''
     \<and> h_from (a_header (x_contentText x)) = ''2024-01-01''
     \<and> h_to (a_header (x_contentText x)) = ''2024-01-31''
     \<and> h_count (a_header (x_contentText x)) = 3
     \<and> u_count (x_upload x) = 3
     \<and> a_lines (x_contentText x) = [''[2024-01-01 09:00:00] U1: hello'']
     \<and> a_lines (x_contentMarkdown x) = [parent1_block]
     \<and> filter progress_event evs = [LogProcessed 1 1]
     \<and> Respond (ThreadsCompleted 1) \<in> set evs"
proof -
  let ?st = "\<lparr>allMessages = [''[2024-01-01 09:00:00] U1: hello''],
        allMessagesMarkdown = [parent1_block],
        totalMessageCount = 3, repliesCalls = 1,
        trace = [Respond Exporting,
                 HistoryCall ''C1'' (secondsString (Some 1704034800000))
                   (secondsString (Some 1706626800000)) None]
                @ [UsersListCall, InfoCall ''C1'', Respond (ThreadEstimate 1 1),
                        Sleep 5000, RepliesCall ''C1'' ''1704067200.000100'',
                        LogProcessed 1 1, Respond (ThreadsCompleted 1)]\<rparr>"
  have run: "processExportAsync example_platform w [''2024-01-01'', ''2024-01-31''] ''C1''
      = Some (writeExport w ''C1'' (channelNameOf w ''C1'') (Some 1704034800000)
                (Some 1706626800000) ?st)"
    using thread_run [OF h parseDateTime_examples(2) parseDateTime_examples(4) january_window,
        of "[]"]
      thread_after [OF r u]
    by simp
  from january_export [OF n, of "''C1''" "channelNameOf w ''C1''" ?st]
  obtain evs x where
    w: "writeExport w ''C1'' (channelNameOf w ''C1'') (Some 1704034800000) (Some 1706626800000) ?st
          = (evs, Exported x)"
    and x: "x_baseFileName x = channelNameOf w ''C1'' @ ''_20240101-20240131''"
      "x_txtFileName x = channelNameOf w ''C1'' @ ''_20240101-20240131.txt''"
      "x_mdFileName x = channelNameOf w ''C1'' @ ''_20240101-20240131.md''"
      "a_header (x_contentText x) =
          \<lparr>h_channelName = channelNameOf w ''C1'', h_from = ''2024-01-01'', h_to = ''2024-01-31'',
           h_exportedAt = ''2024-02-01 09:00:00'', h_count = totalMessageCount ?st\<rparr>"
      "a_lines (x_contentText x) = allMessages ?st"
      "a_lines (x_contentMarkdown x) = allMessagesMarkdown ?st"
      "u_count (x_upload x) = totalMessageCount ?st"
    and e: "evs = trace ?st @ [WriteFile (x_txtFileName x) (x_contentText x),
                         WriteFile (x_mdFileName x) (x_contentMarkdown x),
                         UploadCall (x_upload x)]"
    by blast
  show ?thesis
    using run w x e by simp
qed

lemma january_run_skip:
  assumes h: "w_history w = one_page [parent1]"
    and u: "w_users_list w = Inr (Some [])"
    and n: "w_now w = 1706745600000"
  shows "\<exists>evs x. processExportAsync example_platform w
          [''2024-01-01'', ''2024-01-31'', ''--no-threads''] ''C1''
        = Some (evs, Exported x)
     \<and> h_count (a_header (x_contentText x)) = 1
     \<and> u_count (x_upload x) = 1
     \<and> a_lines (x_contentText x) = [''[2024-01-01 09:00:00] U1: hello'']
     \<and> a_lines (x_contentMarkdown x) = [parent1_block]
     \<and> filter remote_call evs
         = [HistoryCall ''C1'' (secondsString (Some 1704034800000))
              (secondsString (Some 1706626800000)) None,
            UsersListCall, InfoCall ''C1'', UploadCall (x_upload x)]"
proof -
  let ?st = "\<lparr>allMessages = [''[2024-01-01 09:00:00] U1: hello''],
        allMessagesMarkdown = [parent1_block],
        totalMessageCount = 1, repliesCalls = 0,
        trace = [Respond Exporting,
                 HistoryCall ''C1'' (secondsString (Some 1704034800000))
                   (secondsString (Some 1706626800000)) None]
                @ [UsersListCall, InfoCall ''C1'', Respond (ThreadsSkipped 1)]\<rparr>"
  have run: "processExportAsync example_platform w
        [''2024-01-01'', ''2024-01-31'', ''--no-threads''] ''C1''
      = Some (writeExport w ''C1'' (channelNameOf w ''C1'') (Some 1704034800000)
                (Some 1706626800000) ?st)"
    using thread_run [OF h parseDateTime_examples(2) parseDateTime_examples(4) january_window,
        of "[''--no-threads'']"]
      thread_after_skip [OF u]
    by simp
  from january_export [OF n, of "''C1''" "channelNameOf w ''C1''" ?st]
  obtain evs x where
    w: "writeExport w ''C1'' (channelNameOf w ''C1'') (Some 1704034800000) (Some 1706626800000) ?st
          = (evs, Exported x)"
    and x: "a_header (x_contentText x) =
          \<lparr>h_channelName = channelNameOf w ''C1'', h_from = ''2024-01-01'', h_to = ''2024-01-31'',
           h_exportedAt = ''2024-02-01 09:00:00'', h_count = totalMessageCount ?st\<rparr>"
      "a_lines (x_contentText x) = allMessages ?st"
      "a_lines (x_contentMarkdown x) = allMessagesMarkdown ?st"
      "u_count (x_upload x) = totalMessageCount ?st"
    and e: "evs = trace ?st @ [WriteFile (x_txtFileName x) (x_contentText x),
                         WriteFile (x_mdFileName x) (x_contentMarkdown x),
                         UploadCall (x_upload x)]"
    by blast
  show ?thesis
    using run w x e by simp
qed

section \<open>Author names\<close>

text \<open>
  C8 (as the source has it). The rendered author name is the first non-empty value among
  the directory's entry for the author id, the author id, and the literal
  \<open>Unknown User\<close>: a directory entry that is not empty is used; an author id that is not
  empty and has no entry, or an empty entry, renders as the raw id; a missing author id
  renders as \<open>Unknown User\<close>, and so does an empty author id unless the directory has a
  non-empty entry for the empty id.
\<close>

theorem userName_first_nonempty:
  "(\<forall>n. users_get us (msg_user m) = Some n \<and> n \<noteq> [] \<longrightarrow> userName m us = n)
   \<and> (\<forall>u. msg_user m = Some u \<and> u \<noteq> [] \<and> (us u = None \<or> us u = Some [])
         \<longrightarrow> userName m us = u)
   \<and> (msg_user m = None \<or> msg_user m = Some [] \<and> (us [] = None \<or> us [] = Some [])
         \<longrightarrow> userName m us = ''Unknown User'')"
  by (auto simp: userName_def js_or_def js_or_lit_def users_get_def split: option.splits)

theorem userName_first_nonempty_witness:
  "userName \<lparr>msg_ts = ''1.5'', msg_thread_ts = None, msg_user = Some ''U1'', msg_text = None\<rparr>
     [''U1'' \<mapsto> ''Bob''] = ''Bob''
   \<and> userName \<lparr>msg_ts = ''1.5'', msg_thread_ts = None, msg_user = Some ''U2'', msg_text = None\<rparr>
     [''U1'' \<mapsto> ''Bob''] = ''U2''
   \<and> userName \<lparr>msg_ts = ''1.5'', msg_thread_ts = None, msg_user = Some [], msg_text = None\<rparr>
     [''U1'' \<mapsto> ''Bob''] = ''Unknown User''"
  using
    userName_first_nonempty [of "[''U1'' \<mapsto> ''Bob'']"
      "\<lparr>msg_ts = ''1.5'', msg_thread_ts = None, msg_user = Some ''U1'', msg_text = None\<rparr>"]
    userName_first_nonempty [of "[''U1'' \<mapsto> ''Bob'']"
      "\<lparr>msg_ts = ''1.5'', msg_thread_ts = None, msg_user = Some ''U2'', msg_text = None\<rparr>"]
    userName_first_nonempty [of "[''U1'' \<mapsto> ''Bob'']"
      "\<lparr>msg_ts = ''1.5'', msg_thread_ts = None, msg_user = Some [], msg_text = None\<rparr>"]
  by (simp add: users_get_def)

text \<open>
  C8 (as stated) fails where the directory maps the author id to the empty string: the
  first defined value is that empty string, and the source renders the raw id.
\<close>

theorem userName_first_defined_counterexample:
  "userName \<lparr>msg_ts = ''1.5'', msg_thread_ts = None, msg_user = Some ''U1'', msg_text = None\<rparr>
     [''U1'' \<mapsto> []]
   \<noteq> author_first_defined
       \<lparr>msg_ts = ''1.5'', msg_thread_ts = None, msg_user = Some ''U1'', msg_text = None\<rparr>
       [''U1'' \<mapsto> []]"
  by (simp add: userName_def author_first_defined_def js_or_def js_or_lit_def users_get_def)

section \<open>The reply fetcher\<close>

text \<open>
  C2 (as the source has it). One invocation of the reply fetcher always returns a reply
  set and makes at most two calls of the replies endpoint. A successful first call gives
  its replies without a retry. A first failure that is not the rate-limit signal gives
  the empty set after that one call. On the rate-limit signal the fetcher sleeps once,
  for the failure's retry-after duration in seconds, or 60 seconds when that is absent
  or zero, then calls exactly once more and returns that retry's replies, or the empty
  set when the retry fails.
\<close>

theorem getThreadReplies_single_retry:
  "length (filter remote_call (snd (snd (getThreadReplies api n c t)))) \<le> 2
   \<and> (\<forall>r. api n c t = Inr r \<longrightarrow>
         getThreadReplies api n c t = (slice1 r, n + 1, [Sleep 5000, RepliesCall c t]))
   \<and> (\<forall>e. api n c t = Inl e \<and> err_code e \<noteq> Some ''slack_webapi_rate_limited'' \<longrightarrow>
         getThreadReplies api n c t = ([], n + 1, [Sleep 5000, RepliesCall c t]))
   \<and> (\<forall>e. api n c t = Inl e \<and> err_code e = Some ''slack_webapi_rate_limited'' \<longrightarrow>
         getThreadReplies api n c t =
           ((case api (n + 1) c t of Inr r \<Rightarrow> slice1 r | Inl e' \<Rightarrow> []), n + 2,
            [Sleep 5000, RepliesCall c t,
             Sleep ((case err_retryAfter e of None \<Rightarrow> 60 | Some d \<Rightarrow> if d = 0 then 60 else d) * 1000),
             RepliesCall c t]))"
  by (auto simp: getThreadReplies_def retry_wait_def Let_def split: sum.splits option.splits)

theorem getThreadReplies_single_retry_witness:
  "getThreadReplies
     (\<lambda>k c t. if k = 0 then Inl (ApiError (Some ''slack_webapi_rate_limited'') (Some 2))
              else Inr (Some [\<lparr>msg_ts = ''1.5'', msg_thread_ts = Some ''1.5'', msg_user = None, msg_text = None\<rparr>,
                              \<lparr>msg_ts = ''2.5'', msg_thread_ts = Some ''1.5'', msg_user = None, msg_text = None\<rparr>]))
     0 ''C1'' ''1.5''
   = ([\<lparr>msg_ts = ''2.5'', msg_thread_ts = Some ''1.5'', msg_user = None, msg_text = None\<rparr>], 2,
      [Sleep 5000, RepliesCall ''C1'' ''1.5'', Sleep 2000, RepliesCall ''C1'' ''1.5''])
   \<and> getThreadReplies (\<lambda>k c t. Inl (ApiError (Some ''fetch_failed'') None)) 0 ''C1'' ''1.5''
   = ([], 1, [Sleep 5000, RepliesCall ''C1'' ''1.5''])
   \<and> getThreadReplies (\<lambda>k c t. Inr None) 0 ''C1'' ''1.5''
   = ([], 1, [Sleep 5000, RepliesCall ''C1'' ''1.5''])"
  using
    getThreadReplies_single_retry [of
      "\<lambda>k c t. if k = 0 then Inl (ApiError (Some ''slack_webapi_rate_limited'') (Some 2))
              else Inr (Some [\<lparr>msg_ts = ''1.5'', msg_thread_ts = Some ''1.5'', msg_user = None, msg_text = None\<rparr>,
                              \<lparr>msg_ts = ''2.5'', msg_thread_ts = Some ''1.5'', msg_user = None, msg_text = None\<rparr>])"
      0 "''C1''" "''1.5''"]
    getThreadReplies_single_retry [of "\<lambda>k c t. Inl (ApiError (Some ''fetch_failed'') None)"
      0 "''C1''" "''1.5''"]
    getThreadReplies_single_retry [of "\<lambda>k c t. Inr None" 0 "''C1''" "''1.5''"]
  by (simp add: slice1_def)

text \<open>
  C2 (as stated) fails on a rate-limit failure whose retry-after is present and zero:
  the stated wait is zero seconds, the source waits 60 seconds.
\<close>

theorem getThreadReplies_retry_after_counterexample:
  "Sleep (retry_after_or_default (ApiError (Some ''slack_webapi_rate_limited'') (Some 0)) * 1000)
   \<notin> set (snd (snd (getThreadReplies
        (\<lambda>k c t. Inl (ApiError (Some ''slack_webapi_rate_limited'') (Some 0))) 0 ''C1'' ''1.5'')))"
  by (simp add: getThreadReplies_def retry_wait_def retry_after_or_default_def)


section \<open>The rejections\<close>



section \<open>The message count\<close>

text \<open>
  C3. For every export that completes, the message count in the header of both
  artifacts and in the caption of the upload is the number of primary messages plus the
  sum of the lengths of the reply sets fetched for the thread parents, and the number of
  primary messages alone when the threads are skipped. The counter is accumulated in the
  loop: from any state of the loop on, it grows by the lengths of the reply sets fetched
  from there.
\<close>

theorem total_count_reported:
  assumes "exported (processExportAsync pl w args c) = Some x"
  shows "\<exists>messages.
      primaryMessages pl w args c = Some messages
      \<and> h_count (a_header (x_contentText x)) =
          length messages
          + (if ''--no-threads'' \<in> set args then 0
             else sum_list (map length (fetchedReplies (w_replies w) 0 c
                    (filter isThreadParent (sort_key (ts_key pl) messages)))))
      \<and> h_count (a_header (x_contentMarkdown x)) = h_count (a_header (x_contentText x))
      \<and> u_count (x_upload x) = h_count (a_header (x_contentText x))
      \<and> (\<forall>api us n i threads st st'.
            processThreads pl api us c n i threads st = Inr st' \<longrightarrow>
            totalMessageCount st' =
              totalMessageCount st
              + sum_list (map length (fetchedReplies api (repliesCalls st) c threads)))"
proof -
  obtain startDate endDate messages hevs evs where
    pm: "primaryMessages pl w args c = Some messages"
    and "parseDateTime pl (args ! 0) = Some startDate"
    and "parseDateTime pl (args ! 1) = Some endDate"
    and af: "afterFetch pl w c (''--no-threads'' \<in> set args) startDate endDate messages hevs
       = (evs, Exported x)"
    by (rule primaryMessages_Exported [OF assms])
  obtain ordered plain markdown st where
    "messages \<noteq> []"
    and o: "sortMessages pl messages = Some ordered"
    and "those (map (\<lambda>msg. formatMessage pl msg (getUsersInfo (w_users_list w)) []) ordered)
       = Some plain"
    and "those (map (\<lambda>msg. formatMessageMarkdown pl msg (getUsersInfo (w_users_list w)) []) ordered)
       = Some markdown"
    and t: "threadPhase pl (w_replies w) (getUsersInfo (w_users_list w)) c
       (''--no-threads'' \<in> set args) (filter isThreadParent ordered)
       \<lparr>allMessages = plain, allMessagesMarkdown = markdown, totalMessageCount = length ordered,
        repliesCalls = 0, trace = hevs @ [UsersListCall, InfoCall c]\<rparr> = Inr st"
    and wr: "writeExport w c (channelNameOf w c) startDate endDate st = (evs, Exported x)"
    by (rule afterFetch_Exported [OF af])
  have ord: "ordered = sort_key (ts_key pl) messages"
    by (rule sortMessages_Some [OF o])
  have cnt: "totalMessageCount st =
      length messages
      + (if ''--no-threads'' \<in> set args then 0
         else sum_list (map length (fetchedReplies (w_replies w) 0 c
                (filter isThreadParent (sort_key (ts_key pl) messages)))))"
    using threadPhase_count [OF t] by (simp add: ord)
  from writeExport_Exported [OF wr]
  have "h_count (a_header (x_contentText x)) = totalMessageCount st"
    and "a_header (x_contentMarkdown x) = a_header (x_contentText x)"
    and "u_count (x_upload x) = totalMessageCount st"
    by auto
  with pm cnt have "primaryMessages pl w args c = Some messages
      \<and> h_count (a_header (x_contentText x)) =
          length messages
          + (if ''--no-threads'' \<in> set args then 0
             else sum_list (map length (fetchedReplies (w_replies w) 0 c
                    (filter isThreadParent (sort_key (ts_key pl) messages)))))
      \<and> h_count (a_header (x_contentMarkdown x)) = h_count (a_header (x_contentText x))
      \<and> u_count (x_upload x) = h_count (a_header (x_contentText x))"
    by simp
  moreover have "\<forall>api us n i threads st st'.
            processThreads pl api us c n i threads st = Inr st' \<longrightarrow>
            totalMessageCount st' =
              totalMessageCount st
              + sum_list (map length (fetchedReplies api (repliesCalls st) c threads))"
    using processThreads_count by blast
  ultimately show ?thesis by blast
qed

theorem total_count_reported_witness:
  "(\<exists>x. exported (processExportAsync example_platform thread_world
            [''2024-01-01'', ''2024-01-31''] ''C1'') = Some x
      \<and> primaryMessages example_platform thread_world [''2024-01-01'', ''2024-01-31''] ''C1''
          = Some [parent1]
      \<and> fetchedReplies (w_replies thread_world) 0 ''C1'' [parent1] = [[reply1, reply2]]
      \<and> h_count (a_header (x_contentText x)) = 3
      \<and> h_count (a_header (x_contentMarkdown x)) = 3
      \<and> u_count (x_upload x) = 3)
   \<and> (\<exists>x. exported (processExportAsync example_platform thread_world
            [''2024-01-01'', ''2024-01-31'', ''--no-threads''] ''C1'') = Some x
      \<and> h_count (a_header (x_contentText x)) = 1
      \<and> h_count (a_header (x_contentMarkdown x)) = 1
      \<and> u_count (x_upload x) = 1)"
proof (rule conjI)
  let ?args = "[''2024-01-01'', ''2024-01-31'']"
  from january_run [OF thread_world_fields(1) thread_world_fields(2) thread_world_fields(3)
      thread_world_fields(5)]
  obtain evs x where
    r: "processExportAsync example_platform thread_world ?args ''C1'' = Some (evs, Exported x)"
    by blast
  then have ex: "exported (processExportAsync example_platform thread_world ?args ''C1'') = Some x"
    by (simp add: exported_def)
  have pm: "primaryMessages example_platform thread_world ?args ''C1'' = Some [parent1]"
    by (rule thread_primary [OF thread_world_fields(1) parseDateTime_examples(2)
          parseDateTime_examples(4)])
  have so: "sort_key (ts_key example_platform) [parent1] = [parent1]"
    by simp
  from total_count_reported [OF ex] pm
  have "h_count (a_header (x_contentText x)) = 3
      \<and> h_count (a_header (x_contentMarkdown x)) = 3 \<and> u_count (x_upload x) = 3"
    by (simp add: thread_world_fields(2) parent1_is_parent getThreadReplies_thread_of slice1_def)
  with ex pm
  show "\<exists>x. exported (processExportAsync example_platform thread_world ?args ''C1'') = Some x
      \<and> primaryMessages example_platform thread_world ?args ''C1'' = Some [parent1]
      \<and> fetchedReplies (w_replies thread_world) 0 ''C1'' [parent1] = [[reply1, reply2]]
      \<and> h_count (a_header (x_contentText x)) = 3
      \<and> h_count (a_header (x_contentMarkdown x)) = 3
      \<and> u_count (x_upload x) = 3"
    by (simp add: thread_world_fields(2) getThreadReplies_thread_of slice1_def)
next
  let ?args = "[''2024-01-01'', ''2024-01-31'', ''--no-threads'']"
  from january_run_skip [OF thread_world_fields(1) thread_world_fields(3) thread_world_fields(5)]
  obtain evs x where
    r: "processExportAsync example_platform thread_world ?args ''C1'' = Some (evs, Exported x)"
    by blast
  then have ex: "exported (processExportAsync example_platform thread_world ?args ''C1'') = Some x"
    by (simp add: exported_def)
  have pm: "primaryMessages example_platform thread_world ?args ''C1'' = Some [parent1]"
    by (rule thread_primary [OF thread_world_fields(1) parseDateTime_examples(2)
          parseDateTime_examples(4)])
  from total_count_reported [OF ex] pm
  have "h_count (a_header (x_contentText x)) = 1
      \<and> h_count (a_header (x_contentMarkdown x)) = 1 \<and> u_count (x_upload x) = 1"
    by simp
  with ex
  show "\<exists>x. exported (processExportAsync example_platform thread_world ?args ''C1'') = Some x
      \<and> h_count (a_header (x_contentText x)) = 1
      \<and> h_count (a_header (x_contentMarkdown x)) = 1
      \<and> u_count (x_upload x) = 1"
    by simp
qed

section \<open>The thread replies in the transcript\<close>

text \<open>
  The parent of a thread is looked up among the rendered plain lines as the first line
  that includes the parent's \<^verbatim>\<open>ts\<close> string. A rendered line holds the formatted local
  time, the author and the text, not the \<^verbatim>\<open>ts\<close>: when no line includes it, the replies
  are dropped from both transcripts, whatever they are.
\<close>

lemma insertReplies_not_found:
  "findIndex (\<lambda>m. str_includes m (msg_ts msg)) plain = None \<Longrightarrow>
   insertReplies pl us msg replies plain markdown = Some (plain, markdown)"
  by (simp add: insertReplies_def)

text \<open>
  C1. The export of January 2024 from the channel whose history is one thread parent
  (written at 09:00:00 local time on 2024-01-01 by U1, text \<open>hello\<close>) with two replies
  completes; the two replies are fetched and can be rendered, and the count in the
  header is 3; but both transcripts hold the parent alone: no reply line follows the
  parent's line.
\<close>

theorem thread_replies_not_spliced:
  "\<exists>x. exported (processExportAsync example_platform thread_world
           [''2024-01-01'', ''2024-01-31''] ''C1'') = Some x
     \<and> primaryMessages example_platform thread_world [''2024-01-01'', ''2024-01-31''] ''C1''
         = Some [parent1]
     \<and> fetchedReplies (w_replies thread_world) 0 ''C1'' [parent1] = [[reply1, reply2]]
     \<and> formatMessage example_platform reply1 Map.empty reply_indent
         = Some (reply_indent @ ''[2024-01-01 09:01:00] U2: first'')
     \<and> formatMessage example_platform reply2 Map.empty reply_indent
         = Some (reply_indent @ ''[2024-01-01 09:02:00] U1: second'')
     \<and> h_count (a_header (x_contentText x)) = 3
     \<and> a_lines (x_contentText x) = [''[2024-01-01 09:00:00] U1: hello'']
     \<and> a_lines (x_contentMarkdown x) = [parent1_block]"
proof -
  let ?args = "[''2024-01-01'', ''2024-01-31'']"
  from january_run [OF thread_world_fields(1) thread_world_fields(2) thread_world_fields(3)
      thread_world_fields(5)]
  obtain evs x where
    r: "processExportAsync example_platform thread_world ?args ''C1'' = Some (evs, Exported x)"
    and x: "h_count (a_header (x_contentText x)) = 3"
      "a_lines (x_contentText x) = [''[2024-01-01 09:00:00] U1: hello'']"
      "a_lines (x_contentMarkdown x) = [parent1_block]"
    by blast
  from r have ex: "exported (processExportAsync example_platform thread_world ?args ''C1'') = Some x"
    by (simp add: exported_def)
  have pm: "primaryMessages example_platform thread_world ?args ''C1'' = Some [parent1]"
    by (rule thread_primary [OF thread_world_fields(1) parseDateTime_examples(2)
          parseDateTime_examples(4)])
  have fr: "fetchedReplies (w_replies thread_world) 0 ''C1'' [parent1] = [[reply1, reply2]]"
    by (simp add: thread_world_fields(2) getThreadReplies_thread_of slice1_def)
  from ex pm fr x example_lines(2) example_lines(3) show ?thesis
    by blast
qed

section \<open>The progress of the thread loop\<close>

lemma getThreadReplies_no_progress:
  "getThreadReplies api k c t = (replies, k', evs) \<Longrightarrow> filter progress_event evs = []"
  by (auto simp: getThreadReplies_def Let_def split: sum.splits if_splits)

lemma progressEvents_all_progress:
  "filter progress_event (progressEvents n i) = progressEvents n i"
  by (simp add: progressEvents_def)

lemma processThreads_progress:
  "processThreads pl api us c n i threads st = Inr st' \<Longrightarrow>
   filter progress_event (trace st')
     = filter progress_event (trace st) @ concat (map (progressEvents n) [i ..< i + length threads])"
proof (induction threads arbitrary: i st)
  case Nil
  then show ?case by simp
next
  case (Cons msg rest)
  obtain replies calls' evs where g:
    "getThreadReplies api (repliesCalls st) c (threadTsOf msg) = (replies, calls', evs)"
    by (cases "getThreadReplies api (repliesCalls st) c (threadTsOf msg)") auto
  from Cons.prems g obtain plain markdown where
    rest: "processThreads pl api us c n (i + 1) rest
        \<lparr>allMessages = plain, allMessagesMarkdown = markdown,
         totalMessageCount = totalMessageCount st + length replies,
         repliesCalls = calls', trace = trace st @ evs @ progressEvents n i\<rparr> = Inr st'"
    by (auto split: option.splits)
  have up: "[i ..< Suc (i + length rest)] = i # [Suc i ..< Suc (i + length rest)]"
    by (simp add: upt_rec)
  from Cons.IH [OF rest] getThreadReplies_no_progress [OF g] show ?case
    by (simp add: up progressEvents_all_progress del: upt_Suc)
qed

text \<open>
  C4. For every run of the thread loop over \<open>n\<close> thread parents that completes, the
  progress events it adds to the trace are those of the threads in turn; and after the
  \<open>k\<close>-th thread of \<open>n\<close> (counted from 1): when \<open>k\<close> is a multiple of ten and not the
  last thread, the console line and the notice, whose estimate is
  \<open>ceil(((n - k) * 5) / 60)\<close> minutes; on every other multiple of ten and on the last
  thread, the console line alone, with no notice; otherwise nothing.
\<close>

theorem progress_notices:
  "(processThreads pl api us c n 0 threads st = Inr st' \<and> length threads = n \<longrightarrow>
      filter progress_event (trace st')
        = filter progress_event (trace st) @ concat (map (progressEvents n) [0 ..< n]))
   \<and> (\<forall>k. 0 < k \<and> k \<le> n \<longrightarrow>
        progressEvents n (k - 1) =
          (if k mod 10 = 0 \<and> k < n
           then [LogProcessed k n,
                 Respond (Progress k n \<lceil>(of_nat ((n - k) * 5) :: rat) / 60\<rceil>)]
           else if k mod 10 = 0 \<or> k = n then [LogProcessed k n]
           else []))"
proof (intro conjI impI allI)
  assume "processThreads pl api us c n 0 threads st = Inr st' \<and> length threads = n"
  then show "filter progress_event (trace st')
        = filter progress_event (trace st) @ concat (map (progressEvents n) [0 ..< n])"
    using processThreads_progress [of pl api us c n 0 threads st st'] by simp
next
  fix k :: nat
  assume k: "0 < k \<and> k \<le> n"
  then have a: "k - 1 + 1 = k" and b: "n - (k - 1) - 1 = n - k"
    and c: "(int (k - 1) = int n - 1) = (k = n)" and d: "(int (k - 1) < int n - 1) = (k < n)"
    by auto
  show "progressEvents n (k - 1) =
          (if k mod 10 = 0 \<and> k < n
           then [LogProcessed k n,
                 Respond (Progress k n \<lceil>(of_nat ((n - k) * 5) :: rat) / 60\<rceil>)]
           else if k mod 10 = 0 \<or> k = n then [LogProcessed k n]
           else [])"
    unfolding progressEvents_def estimateMinutes_def a b c d by simp
qed

theorem progress_notices_witness:
  "filter progress_event (trace
      \<lparr>allMessages = [''[2024-01-01 09:00:00] U1: hello''], allMessagesMarkdown = [parent1_block],
       totalMessageCount = 3, repliesCalls = 1,
       trace = [Sleep 5000, RepliesCall ''C1'' ''1704067200.000100'', LogProcessed 1 1]\<rparr>)
     = [LogProcessed 1 1]
   \<and> progressEvents 1 0 = [LogProcessed 1 1]
   \<and> progressEvents 25 9 = [LogProcessed 10 25, Respond (Progress 10 25 2)]
   \<and> progressEvents 20 19 = [LogProcessed 20 20]"
proof -
  have run: "processThreads example_platform (thread_of [parent1, reply1, reply2]) Map.empty ''C1''
      1 0 [parent1]
      \<lparr>allMessages = [''[2024-01-01 09:00:00] U1: hello''], allMessagesMarkdown = [parent1_block],
       totalMessageCount = 1, repliesCalls = 0, trace = []\<rparr>
    = Inr \<lparr>allMessages = [''[2024-01-01 09:00:00] U1: hello''],
           allMessagesMarkdown = [parent1_block],
           totalMessageCount = 3, repliesCalls = 1,
           trace = [Sleep 5000, RepliesCall ''C1'' ''1704067200.000100'', LogProcessed 1 1]\<rparr>"
    by (simp add: getThreadReplies_thread_of slice1_def parent1_insert threadTsOf_def
          example_fields progressEvents_def numeral_3_eq_3)
  have e: "\<lceil>(5 :: rat) / 4\<rceil> = 2"
    by (rule ceiling_unique) simp_all
  from progress_notices [of example_platform "thread_of [parent1, reply1, reply2]" Map.empty
      "''C1''" 1 "[parent1]" _ _] run
  have 1: "filter progress_event (trace
      \<lparr>allMessages = [''[2024-01-01 09:00:00] U1: hello''], allMessagesMarkdown = [parent1_block],
       totalMessageCount = 3, repliesCalls = 1,
       trace = [Sleep 5000, RepliesCall ''C1'' ''1704067200.000100'', LogProcessed 1 1]\<rparr>)
     = [LogProcessed 1 1] \<and> progressEvents 1 0 = [LogProcessed 1 1]"
    by (simp add: progressEvents_def)
  from progress_notices [where n = 25, THEN conjunct2, rule_format, of 10]
  have "progressEvents 25 (10 - 1) =
      [LogProcessed 10 25, Respond (Progress 10 25 \<lceil>(of_nat ((25 - 10) * 5) :: rat) / 60\<rceil>)]"
    by simp
  then have 2: "progressEvents 25 9 = [LogProcessed 10 25, Respond (Progress 10 25 2)]"
    by (simp add: e)
  from progress_notices [where n = 20, THEN conjunct2, rule_format, of 20]
  have "progressEvents 20 (20 - 1) = [LogProcessed 20 20]"
    by simp
  then have 3: "progressEvents 20 19 = [LogProcessed 20 20]"
    by simp
  from 1 2 3 show ?thesis by simp
qed

text \<open>
  On the final thread there is no notice: the loop over one thread emits the console
  line alone, and so does the twentieth thread of twenty.
\<close>

theorem progress_final_thread_counterexample:
  "filter progress_event (events_of (processExportAsync example_platform thread_world
       [''2024-01-01'', ''2024-01-31''] ''C1'')) = [LogProcessed 1 1]
   \<and> progressEvents 20 19 = [LogProcessed 20 20]"
proof -
  from january_run [OF thread_world_fields(1) thread_world_fields(2) thread_world_fields(3)
      thread_world_fields(5)]
  obtain evs x where
    "processExportAsync example_platform thread_world [''2024-01-01'', ''2024-01-31''] ''C1''
       = Some (evs, Exported x)"
    and "filter progress_event evs = [LogProcessed 1 1]"
    by blast
  then have "filter progress_event (events_of (processExportAsync example_platform thread_world
       [''2024-01-01'', ''2024-01-31''] ''C1'')) = [LogProcessed 1 1]"
    by (simp add: events_of_def)
  moreover have "progressEvents 20 19 = [LogProcessed 20 20]"
    by (simp add: progressEvents_def)
  ultimately show ?thesis by simp
qed

section \<open>The paginated fetch\<close>

lemma fetchHistory_stops:
  "stops_within api c a b k n cur \<Longrightarrow> \<exists>r. fetchHistory api c a b n cur acc evs = Some r"
proof (induction k arbitrary: n cur acc evs)
  case 0
  then show ?case by simp
next
  case (Suc k)
  show ?case
  proof (cases "api n c a b cur")
    case (Inl error)
    then show ?thesis by (subst fetchHistory.simps) simp
  next
    case (Inr result)
    show ?thesis
    proof (cases "p_next_cursor result")
      case None
      with Inr show ?thesis by (subst fetchHistory.simps) simp
    next
      case (Some x)
      show ?thesis
      proof (cases "x = []")
        case True
        with Inr Some show ?thesis by (subst fetchHistory.simps) simp
      next
        case False
        with Suc.prems Inr Some have "stops_within api c a b k (n + 1) (Some x)"
          by simp
        from Suc.IH [OF this] Inr Some False show ?thesis
          by (subst fetchHistory.simps) (simp add: Let_def)
      qed
    qed
  qed
qed

lemma fetchHistory_returned:
  assumes "fetchHistory api c a b n cur acc evs = Some r"
  shows "\<exists>k. stops_within api c a b k n cur"
proof (rule fetchHistory.raw_induct
    [where P = "\<lambda>api c a b n cur acc evs r. \<exists>k. stops_within api c a b k n cur", OF _ assms])
  fix f :: "history_api \<Rightarrow> string \<Rightarrow> string \<Rightarrow> string \<Rightarrow> nat \<Rightarrow> string option \<Rightarrow> message list
     \<Rightarrow> event list \<Rightarrow> ((api_error + message list) \<times> event list) option"
  fix api c a b n cur acc evs r
  assume IH: "\<And>api c a b n cur acc evs r. f api c a b n cur acc evs = Some r
      \<Longrightarrow> \<exists>k. stops_within api c a b k n cur"
  assume body: "(let evs' = evs @ [HistoryCall c a b cur] in
      case api n c a b cur of
        Inl error \<Rightarrow> Some (Inl error, evs')
      | Inr result \<Rightarrow>
          (let messages' = (case p_messages result of None \<Rightarrow> acc | Some ms \<Rightarrow> acc @ ms)
           in case p_next_cursor result of
                None \<Rightarrow> Some (Inr messages', evs')
              | Some c' \<Rightarrow>
                  if c' \<noteq> []
                  then f api c a b (n + 1) (Some c') messages' evs'
                  else Some (Inr messages', evs'))) = Some r"
  show "\<exists>k. stops_within api c a b k n cur"
  proof (cases "api n c a b cur")
    case (Inl error)
    then have "stops_within api c a b (Suc 0) n cur" by simp
    then show ?thesis ..
  next
    case (Inr result)
    show ?thesis
    proof (cases "p_next_cursor result")
      case None
      with Inr have "stops_within api c a b (Suc 0) n cur" by simp
      then show ?thesis ..
    next
      case (Some x)
      show ?thesis
      proof (cases "x = []")
        case True
        with Inr Some have "stops_within api c a b (Suc 0) n cur" by simp
        then show ?thesis ..
      next
        case False
        with body Inr Some have
          "f api c a b (n + 1) (Some x)
             (case p_messages result of None \<Rightarrow> acc | Some ms \<Rightarrow> acc @ ms)
             (evs @ [HistoryCall c a b cur]) = Some r"
          by (simp add: Let_def)
        from IH [OF this] obtain k where "stops_within api c a b k (n + 1) (Some x)" ..
        with Inr Some False have "stops_within api c a b (Suc k) n cur" by simp
        then show ?thesis ..
      qed
    qed
  qed
qed

lemma fetchHistory_stuck:
  "fetchHistory stuck_history c a b n cur acc evs = None"
proof (cases "fetchHistory stuck_history c a b n cur acc evs")
  case None
  then show ?thesis .
next
  case (Some r)
  from fetchHistory_returned [OF Some] obtain k where "stops_within stuck_history c a b k n cur" ..
  moreover have "\<not> stops_within stuck_history c a b k n cur" for k n cur
    by (induction k arbitrary: n cur) (simp_all add: stuck_history_def)
  ultimately show ?thesis by simp
qed


text \<open>
  C5. For every remote side, the paginated fetch returns exactly when the remote side
  lets it stop within some number of calls: when a call fails, or a page comes without
  a next cursor or with the empty one. It stops at such a page, with the messages
  accumulated so far and those of the page; in particular an empty first page without a
  cursor gives the empty list of messages and no error.
\<close>

theorem fetchHistory_returns:
  "((\<exists>r. fetchHistory api c a b n cur acc evs = Some r) \<longleftrightarrow> (\<exists>k. stops_within api c a b k n cur))
   \<and> (api n c a b cur = Inr \<lparr>p_messages = Some [], p_next_cursor = None\<rparr> \<longrightarrow>
        fetchHistory api c a b n cur acc evs = Some (Inr acc, evs @ [HistoryCall c a b cur]))
   \<and> (\<forall>result. api n c a b cur = Inr result
          \<and> (p_next_cursor result = None \<or> p_next_cursor result = Some []) \<longrightarrow>
        fetchHistory api c a b n cur acc evs
          = Some (Inr (case p_messages result of None \<Rightarrow> acc | Some ms \<Rightarrow> acc @ ms),
                  evs @ [HistoryCall c a b cur]))"
proof (intro conjI impI allI)
  show "(\<exists>r. fetchHistory api c a b n cur acc evs = Some r) \<longleftrightarrow> (\<exists>k. stops_within api c a b k n cur)"
    using fetchHistory_returned fetchHistory_stops by blast
next
  assume "api n c a b cur = Inr \<lparr>p_messages = Some [], p_next_cursor = None\<rparr>"
  then show "fetchHistory api c a b n cur acc evs = Some (Inr acc, evs @ [HistoryCall c a b cur])"
    by (subst fetchHistory.simps) simp
next
  fix result
  assume "api n c a b cur = Inr result
      \<and> (p_next_cursor result = None \<or> p_next_cursor result = Some [])"
  then show "fetchHistory api c a b n cur acc evs
          = Some (Inr (case p_messages result of None \<Rightarrow> acc | Some ms \<Rightarrow> acc @ ms),
                  evs @ [HistoryCall c a b cur])"
    by (subst fetchHistory.simps) (auto simp: Let_def)
qed

theorem fetchHistory_returns_witness:
  "fetchHistory empty_history ''C1'' ''0'' ''1'' 0 None [] []
     = Some (Inr [], [HistoryCall ''C1'' ''0'' ''1'' None])
   \<and> stops_within (two_pages [reply1] [parent1]) ''C1'' ''0'' ''1'' 2 0 None
   \<and> (\<exists>r. fetchHistory (two_pages [reply1] [parent1]) ''C1'' ''0'' ''1'' 0 None [] [] = Some r)"
proof -
  have e: "empty_history 0 ''C1'' ''0'' ''1'' None = Inr \<lparr>p_messages = Some [], p_next_cursor = None\<rparr>"
    by (simp add: empty_history_def)
  have s: "stops_within (two_pages [reply1] [parent1]) ''C1'' ''0'' ''1'' 2 0 None"
    by (simp add: numeral_2_eq_2 two_pages_def)
  from fetchHistory_returns [of empty_history "''C1''" "''0''" "''1''" 0 None "[]" "[]"] e
  have 1: "fetchHistory empty_history ''C1'' ''0'' ''1'' 0 None [] []
     = Some (Inr [], [HistoryCall ''C1'' ''0'' ''1'' None])"
    by simp
  from fetchHistory_returns [of "two_pages [reply1] [parent1]" "''C1''" "''0''" "''1''" 0 None "[]" "[]"] s
  have 2: "\<exists>r. fetchHistory (two_pages [reply1] [parent1]) ''C1'' ''0'' ''1'' 0 None [] [] = Some r"
    by blast
  from 1 s 2 show ?thesis by simp
qed

text \<open>
  There is no guard against a cursor that repeats: on the endpoint that answers every
  call with the same cursor the loop does not return.
\<close>

theorem fetchHistory_repeated_cursor_counterexample:
  "fetchHistory stuck_history ''C1'' ''0'' ''1'' 0 None [] [] = None"
  by (rule fetchHistory_stuck)

section \<open>The window and its display\<close>

lemma calendar_window_bound:
  assumes "calendar_token s" and "0 < tokenYear s"
    and "parseISO pl (s @ ''T00:00:00'') = calendarMidnight s"
    and "parseDateTime pl s = Some d"
  shows "\<exists>t. calendarMidnight s = Some t \<and> d = Some (t - 32400000)
           \<and> addHours d 9 = Some t \<and> format_yyyy_MM_dd t = s"
proof -
  from parseDateTime_calendar [OF assms(1) assms(3)] assms(4)
  obtain t where t: "calendarMidnight s = Some t" and d: "d = Some (t - 32400000)"
    by (cases "calendarMidnight s") auto
  have "addHours d 9 = Some t"
    unfolding d by (rule addHours_roundtrip(2) [OF calendarMidnight_range [OF t]])
  moreover have "format_yyyy_MM_dd t = s"
    by (rule calendar_roundtrip(1) [OF t assms(2)])
  ultimately show ?thesis using t d by simp
qed

lemma example_tokens:
  "calendar_token ''2024-01-01''" "calendar_token ''2024-01-31''"
  "0 < tokenYear ''2024-01-01''" "0 < tokenYear ''2024-01-31''"
  by code_simp+

text \<open>
  C7. For every platform and every pair of tokens in the notation \<^verbatim>\<open>YYYY-MM-DD\<close> with
  a year from 0001 on, which the platform's parser reads, completed with midnight, as
  midnight of that day: a bound that \<open>parseDateTime\<close> answers for a token is midnight
  of that day less nine hours, and nine hours added to it render, in the format
  \<^verbatim>\<open>yyyy-MM-dd\<close> of the header, exactly the token; and in every export that completes
  on the two tokens, the period in the header of the artifacts and in the caption of the
  upload is the two tokens.
\<close>

theorem window_roundtrip:
  assumes "calendar_token s" and "calendar_token e"
    and "0 < tokenYear s" and "0 < tokenYear e"
    and "parseISO pl (s @ ''T00:00:00'') = calendarMidnight s"
    and "parseISO pl (e @ ''T00:00:00'') = calendarMidnight e"
  shows "(\<forall>d. parseDateTime pl s = Some d \<longrightarrow>
            (\<exists>t. calendarMidnight s = Some t \<and> d = Some (t - 32400000)
                 \<and> addHours d 9 = Some t \<and> format_yyyy_MM_dd t = s))
     \<and> (\<forall>d. parseDateTime pl e = Some d \<longrightarrow>
            (\<exists>t. calendarMidnight e = Some t \<and> d = Some (t - 32400000)
                 \<and> addHours d 9 = Some t \<and> format_yyyy_MM_dd t = e))
     \<and> (\<forall>x. exported (processExportAsync pl w (s # e # opts) c) = Some x \<longrightarrow>
            h_from (a_header (x_contentText x)) = s \<and> h_to (a_header (x_contentText x)) = e
            \<and> h_from (a_header (x_contentMarkdown x)) = s
            \<and> h_to (a_header (x_contentMarkdown x)) = e
            \<and> u_from (x_upload x) = s \<and> u_to (x_upload x) = e)"
proof -
  have 1: "\<exists>t. calendarMidnight s = Some t \<and> d = Some (t - 32400000)
                 \<and> addHours d 9 = Some t \<and> format_yyyy_MM_dd t = s"
    if "parseDateTime pl s = Some d" for d
    using that by (rule calendar_window_bound [OF assms(1) assms(3) assms(5)])
  have 2: "\<exists>t. calendarMidnight e = Some t \<and> d = Some (t - 32400000)
                 \<and> addHours d 9 = Some t \<and> format_yyyy_MM_dd t = e"
    if "parseDateTime pl e = Some d" for d
    using that by (rule calendar_window_bound [OF assms(2) assms(4) assms(6)])
  have 3: "h_from (a_header (x_contentText x)) = s \<and> h_to (a_header (x_contentText x)) = e
            \<and> h_from (a_header (x_contentMarkdown x)) = s
            \<and> h_to (a_header (x_contentMarkdown x)) = e
            \<and> u_from (x_upload x) = s \<and> u_to (x_upload x) = e"
    if ex: "exported (processExportAsync pl w (s # e # opts) c) = Some x" for x
  proof -
  obtain startDate endDate messages hevs evs where
    "2 \<le> length (s # e # opts)"
    and ps: "parseDateTime pl ((s # e # opts) ! 0) = Some startDate"
    and pe: "parseDateTime pl ((s # e # opts) ! 1) = Some endDate"
    and "\<not> date_ge startDate endDate"
    and "fetchHistory (w_history w) c (secondsString startDate) (secondsString endDate)
       0 None [] [Respond Exporting] = Some (Inr messages, hevs)"
    and af: "afterFetch pl w c (''--no-threads'' \<in> set (s # e # opts)) startDate endDate
       messages hevs = (evs, Exported x)"
    and "processExportAsync pl w (s # e # opts) c = Some (evs, Exported x)"
    by (rule processExportAsync_Exported [OF ex])
  obtain ordered plain markdown st where
    "messages \<noteq> []"
    and "sortMessages pl messages = Some ordered"
    and "those (map (\<lambda>msg. formatMessage pl msg (getUsersInfo (w_users_list w)) []) ordered)
       = Some plain"
    and "those (map (\<lambda>msg. formatMessageMarkdown pl msg (getUsersInfo (w_users_list w)) []) ordered)
       = Some markdown"
    and "threadPhase pl (w_replies w) (getUsersInfo (w_users_list w)) c
       (''--no-threads'' \<in> set (s # e # opts)) (filter isThreadParent ordered)
       \<lparr>allMessages = plain, allMessagesMarkdown = markdown, totalMessageCount = length ordered,
        repliesCalls = 0, trace = hevs @ [UsersListCall, InfoCall c]\<rparr> = Inr st"
    and wr: "writeExport w c (channelNameOf w c) startDate endDate st = (evs, Exported x)"
    by (rule afterFetch_Exported [OF af])
  from ps have ps': "parseDateTime pl s = Some startDate" by simp
  from pe have pe': "parseDateTime pl e = Some endDate" by simp
  from calendar_window_bound [OF assms(1) assms(3) assms(5) ps']
  obtain ts where ts: "addHours startDate 9 = Some ts" "format_yyyy_MM_dd ts = s" by blast
  from calendar_window_bound [OF assms(2) assms(4) assms(6) pe']
  obtain te where te: "addHours endDate 9 = Some te" "format_yyyy_MM_dd te = e" by blast
  from writeExport_Exported [OF wr] ts te
  show ?thesis
    by auto
  qed
  from 1 2 3 show ?thesis by blast
qed

theorem window_roundtrip_witness:
  "parseDateTime example_platform ''2024-01-01'' = Some (Some 1704034800000)
   \<and> addHours (Some 1704034800000) 9 = Some 1704067200000
   \<and> format_yyyy_MM_dd 1704067200000 = ''2024-01-01''
   \<and> (\<exists>x. exported (processExportAsync example_platform thread_world
              [''2024-01-01'', ''2024-01-31''] ''C1'') = Some x
          \<and> h_from (a_header (x_contentText x)) = ''2024-01-01''
          \<and> h_to (a_header (x_contentText x)) = ''2024-01-31''
          \<and> u_from (x_upload x) = ''2024-01-01'' \<and> u_to (x_upload x) = ''2024-01-31'')"
proof -
  have p: "parseISO example_platform (''2024-01-01'' @ ''T00:00:00'') = calendarMidnight ''2024-01-01''"
    "parseISO example_platform (''2024-01-31'' @ ''T00:00:00'') = calendarMidnight ''2024-01-31''"
    unfolding example_platform_fields
    by (rule example_parseISO_calendar [OF example_tokens(1)])
       (rule example_parseISO_calendar [OF example_tokens(2)])
  note r = window_roundtrip [OF example_tokens p, of thread_world "[]" "''C1''"]
  from r parseDateTime_examples(2)
  have "\<exists>t. Some 1704034800000 = Some (t - 32400000)
          \<and> addHours (Some 1704034800000) 9 = Some t \<and> format_yyyy_MM_dd t = ''2024-01-01''"
    by blast
  then have 1: "addHours (Some 1704034800000) 9 = Some 1704067200000
      \<and> format_yyyy_MM_dd 1704067200000 = ''2024-01-01''"
    by auto
  from january_run [OF thread_world_fields(1) thread_world_fields(2) thread_world_fields(3)
      thread_world_fields(5)]
  obtain evs x where
    "processExportAsync example_platform thread_world [''2024-01-01'', ''2024-01-31''] ''C1''
       = Some (evs, Exported x)"
    by blast
  then have ex: "exported (processExportAsync example_platform thread_world
      [''2024-01-01'', ''2024-01-31''] ''C1'') = Some x"
    by (simp add: exported_def)
  with r have "h_from (a_header (x_contentText x)) = ''2024-01-01''
          \<and> h_to (a_header (x_contentText x)) = ''2024-01-31''
          \<and> u_from (x_upload x) = ''2024-01-01'' \<and> u_to (x_upload x) = ''2024-01-31''"
    by blast
  with ex 1 parseDateTime_examples(2) show ?thesis by blast
qed

text \<open>
  A token with a time of day does not come back: the bound of \<^verbatim>\<open>2024-01-01T10:30\<close> is
  displayed as \<^verbatim>\<open>2024-01-01\<close>.
\<close>

theorem window_roundtrip_counterexample:
  "parseDateTime example_platform ''2024-01-01T10:30'' = Some (Some 1704072600000)
   \<and> addHours (Some 1704072600000) 9 = Some 1704105000000
   \<and> format_yyyy_MM_dd 1704105000000 = ''2024-01-01''
   \<and> ''2024-01-01'' \<noteq> ''2024-01-01T10:30''"
  by (simp add: parseDateTime_examples addHours_examples format_examples)

section \<open>The file names\<close>









section \<open>The order of the transcript\<close>

lemma subseq_splice_in: "subseq xs (splice_in xs i ys)"
proof -
  have "subseq (drop i xs) (ys @ drop i xs)"
    by (rule subseq_drop_many) (rule subseq_order.order_refl)
  then have "subseq (take i xs @ drop i xs) (take i xs @ ys @ drop i xs)"
    by (simp only: subseq_append')
  then show ?thesis
    by (simp add: splice_in_def)
qed

lemma insertReplies_subseq:
  assumes "insertReplies pl us msg replies plain markdown = Some (plain', markdown')"
  shows "subseq plain plain'" and "subseq markdown markdown'"
  using assms
  by (auto simp: insertReplies_def subseq_splice_in split: option.splits)

lemma processThreads_subseq:
  "processThreads pl api us c n i threads st = Inr st' \<Longrightarrow>
   subseq (allMessages st) (allMessages st')
   \<and> subseq (allMessagesMarkdown st) (allMessagesMarkdown st')"
proof (induction threads arbitrary: i st)
  case Nil
  then show ?case by simp
next
  case (Cons msg rest)
  obtain replies calls' evs where g:
    "getThreadReplies api (repliesCalls st) c (threadTsOf msg) = (replies, calls', evs)"
    by (cases "getThreadReplies api (repliesCalls st) c (threadTsOf msg)") auto
  from Cons.prems g obtain plain markdown where
    ins: "insertReplies pl us msg replies (allMessages st) (allMessagesMarkdown st)
            = Some (plain, markdown)"
    and rest: "processThreads pl api us c n (i + 1) rest
        \<lparr>allMessages = plain, allMessagesMarkdown = markdown,
         totalMessageCount = totalMessageCount st + length replies,
         repliesCalls = calls', trace = trace st @ evs @ progressEvents n i\<rparr> = Inr st'"
    by (auto split: option.splits)
  from Cons.IH [OF rest] have "subseq plain (allMessages st')"
    and "subseq markdown (allMessagesMarkdown st')"
    by simp_all
  with insertReplies_subseq [OF ins] show ?case
    using subseq_order.order_trans by blast
qed

lemma threadPhase_subseq:
  assumes "threadPhase pl api us c skip threads st = Inr st'"
  shows "subseq (allMessages st) (allMessages st')"
    and "subseq (allMessagesMarkdown st) (allMessagesMarkdown st')"
    and "skip \<Longrightarrow> allMessages st' = allMessages st \<and> allMessagesMarkdown st' = allMessagesMarkdown st"
proof -
  have "subseq (allMessages st) (allMessages st')
    \<and> subseq (allMessagesMarkdown st) (allMessagesMarkdown st')
    \<and> (skip \<longrightarrow> allMessages st' = allMessages st \<and> allMessagesMarkdown st' = allMessagesMarkdown st)"
  proof (cases "0 < length threads \<and> \<not> skip")
    case True
    let ?st0 = "st\<lparr>trace := trace st @ [Respond (ThreadEstimate (length threads)
                   (estimateMinutes (length threads)))]\<rparr>"
    from assms True obtain st2 where
      run: "processThreads pl api us c (length threads) 0 threads ?st0 = Inr st2"
      and st': "st' = st2\<lparr>trace := trace st2 @ [Respond (ThreadsCompleted (length threads))]\<rparr>"
      by (auto simp: threadPhase_def Let_def split: sum.splits)
    from processThreads_subseq [OF run] st' True show ?thesis by simp
  next
    case False
    with assms have "allMessages st' = allMessages st \<and> allMessagesMarkdown st' = allMessagesMarkdown st"
      by (auto simp: threadPhase_def Let_def split: if_splits)
    then show ?thesis by simp
  qed
  then show "subseq (allMessages st) (allMessages st')"
    and "subseq (allMessagesMarkdown st) (allMessagesMarkdown st')"
    and "skip \<Longrightarrow> allMessages st' = allMessages st \<and> allMessagesMarkdown st' = allMessagesMarkdown st"
    by simp_all
qed

lemma sort_key_keys:
  fixes f :: "'a \<Rightarrow> rat"
  assumes "mset other = mset xs"
  shows "map f (sort_key f other) = map f (sort_key f xs)"
proof -
  have "mset (map f (sort_key f other)) = mset (map f xs)"
    using assms by simp
  then have 1: "sort (map f xs) = map f (sort_key f other)"
    by (rule properties_for_sort) (rule sorted_sort_key)
  have "mset (map f (sort_key f xs)) = mset (map f xs)"
    by simp
  then have "sort (map f xs) = map f (sort_key f xs)"
    by (rule properties_for_sort) (rule sorted_sort_key)
  with 1 show ?thesis by simp
qed

text \<open>
  An export whose history comes in two pages, the newer message on the first page: the
  reply of 09:01:00 first, then the parent of 09:00:00.
\<close>

lemma fetchHistory_two_pages:
  "fetchHistory (two_pages first second) c a b 0 None [] evs
     = Some (Inr (first @ second),
             evs @ [HistoryCall c a b None, HistoryCall c a b (Some ''next'')])"
  by (subst fetchHistory.simps, simp add: two_pages_def, subst fetchHistory.simps,
      simp add: two_pages_def)

lemma example_keys:
  "parseFloat example_platform (msg_ts parent1) \<noteq> None"
  "parseFloat example_platform (msg_ts reply1) \<noteq> None"
  "\<not> ts_key example_platform reply1 \<le> ts_key example_platform parent1"
  by code_simp+

lemma two_pages_sorted:
  "sortMessages example_platform [reply1, parent1] = Some [parent1, reply1]"
  by (simp add: sortMessages_def example_keys)

lemma reply1_rendered:
  "formatMessage example_platform reply1 Map.empty [] = Some ''[2024-01-01 09:01:00] U2: first''"
  "formatMessageMarkdown example_platform reply1 Map.empty []
     = Some (''### U2 '' @ backtick @ ''2024-01-01 09:01:00'' @ backtick @ newline @ newline
             @ ''first'' @ newline)"
  by (simp_all add: formatMessage_def formatMessageMarkdown_def jstTimestamp_examples
        format_examples userName_def users_get_def js_or_def js_or_lit_def example_fields Let_def)

lemma reply1_not_parent: "\<not> isThreadParent reply1"
  by (simp add: isThreadParent_def reply1_def)

lemma two_pages_run:
  "\<exists>evs x. processExportAsync example_platform (world_of (two_pages [reply1] [parent1]) no_replies)
          [''2024-01-01'', ''2024-01-31'', ''--no-threads''] ''C1''
        = Some (evs, Exported x)
     \<and> a_lines (x_contentText x)
         = [''[2024-01-01 09:00:00] U1: hello'', ''[2024-01-01 09:01:00] U2: first'']"
proof -
  let ?w = "world_of (two_pages [reply1] [parent1]) no_replies"
  let ?hevs = "[Respond Exporting,
                HistoryCall ''C1'' (secondsString (Some 1704034800000))
                  (secondsString (Some 1706626800000)) None,
                HistoryCall ''C1'' (secondsString (Some 1704034800000))
                  (secondsString (Some 1706626800000)) (Some ''next'')]"
  let ?st = "\<lparr>allMessages = [''[2024-01-01 09:00:00] U1: hello'', ''[2024-01-01 09:01:00] U2: first''],
        allMessagesMarkdown = [parent1_block,
          ''### U2 '' @ backtick @ ''2024-01-01 09:01:00'' @ backtick @ newline @ newline
             @ ''first'' @ newline],
        totalMessageCount = 2, repliesCalls = 0,
        trace = (?hevs @ [UsersListCall, InfoCall ''C1'']) @ [Respond (ThreadsSkipped 1)]\<rparr>"
  have af: "afterFetch example_platform ?w ''C1'' True (Some 1704034800000) (Some 1706626800000)
        [reply1, parent1] ?hevs
      = writeExport ?w ''C1'' (channelNameOf ?w ''C1'') (Some 1704034800000)
          (Some 1706626800000) ?st"
    by (simp add: afterFetch_def Let_def world_fields getUsersInfo_no_members two_pages_sorted
          example_lines example_blocks reply1_rendered parent1_is_parent reply1_not_parent
          thread_world_skipped numeral_2_eq_2)
  have run: "processExportAsync example_platform ?w
        [''2024-01-01'', ''2024-01-31'', ''--no-threads''] ''C1''
      = Some (writeExport ?w ''C1'' (channelNameOf ?w ''C1'') (Some 1704034800000)
                (Some 1706626800000) ?st)"
    using af
    by (simp add: processExportAsync_def Let_def parseDateTime_examples january_window
          world_fields fetchHistory_two_pages)
  from january_export [OF world_fields(5), of "two_pages [reply1] [parent1]" no_replies
      "''C1''" "channelNameOf ?w ''C1''" ?st]
  obtain evs x where
    w: "writeExport ?w ''C1'' (channelNameOf ?w ''C1'') (Some 1704034800000) (Some 1706626800000) ?st
          = (evs, Exported x)"
    and x: "a_lines (x_contentText x) = allMessages ?st"
    by blast
  show ?thesis
    using run w x by simp
qed

lemma two_pages_primary:
  "primaryMessages example_platform (world_of (two_pages [reply1] [parent1]) no_replies)
      [''2024-01-01'', ''2024-01-31'', ''--no-threads''] ''C1'' = Some [reply1, parent1]"
  by (simp add: primaryMessages_def parseDateTime_examples world_fields fetchHistory_two_pages)


text \<open>
  C10. For every export that completes: every primary message has a numeric key; the
  list that is rendered is the primary messages sorted by the key, an ascending
  permutation of what the pages delivered, whose sequence of keys is the same for every
  order of delivery; and the lines of the two transcripts hold the rendered sorted
  messages in that order (with the thread replies, if any, between them; exactly these
  lines when the threads are skipped).
\<close>

theorem transcript_ascending:
  assumes "exported (processExportAsync pl w args c) = Some x"
  shows "\<exists>messages plain markdown.
      primaryMessages pl w args c = Some messages
      \<and> list_all (\<lambda>m. parseFloat pl (msg_ts m) \<noteq> None) messages
      \<and> sorted (map (ts_key pl) (sort_key (ts_key pl) messages))
      \<and> mset (sort_key (ts_key pl) messages) = mset messages
      \<and> (\<forall>other. mset other = mset messages \<longrightarrow>
            map (ts_key pl) (sort_key (ts_key pl) other)
              = map (ts_key pl) (sort_key (ts_key pl) messages))
      \<and> those (map (\<lambda>m. formatMessage pl m (getUsersInfo (w_users_list w)) [])
                  (sort_key (ts_key pl) messages)) = Some plain
      \<and> those (map (\<lambda>m. formatMessageMarkdown pl m (getUsersInfo (w_users_list w)) [])
                  (sort_key (ts_key pl) messages)) = Some markdown
      \<and> subseq plain (a_lines (x_contentText x))
      \<and> subseq markdown (a_lines (x_contentMarkdown x))
      \<and> (''--no-threads'' \<in> set args \<longrightarrow>
            a_lines (x_contentText x) = plain \<and> a_lines (x_contentMarkdown x) = markdown)"
proof -
  obtain startDate endDate messages hevs evs where
    pm: "primaryMessages pl w args c = Some messages"
    and "parseDateTime pl (args ! 0) = Some startDate"
    and "parseDateTime pl (args ! 1) = Some endDate"
    and af: "afterFetch pl w c (''--no-threads'' \<in> set args) startDate endDate messages hevs
       = (evs, Exported x)"
    by (rule primaryMessages_Exported [OF assms])
  obtain ordered plain markdown st where
    "messages \<noteq> []"
    and o: "sortMessages pl messages = Some ordered"
    and p: "those (map (\<lambda>msg. formatMessage pl msg (getUsersInfo (w_users_list w)) []) ordered)
       = Some plain"
    and m: "those (map (\<lambda>msg. formatMessageMarkdown pl msg (getUsersInfo (w_users_list w)) []) ordered)
       = Some markdown"
    and t: "threadPhase pl (w_replies w) (getUsersInfo (w_users_list w)) c
       (''--no-threads'' \<in> set args) (filter isThreadParent ordered)
       \<lparr>allMessages = plain, allMessagesMarkdown = markdown, totalMessageCount = length ordered,
        repliesCalls = 0, trace = hevs @ [UsersListCall, InfoCall c]\<rparr> = Inr st"
    and wr: "writeExport w c (channelNameOf w c) startDate endDate st = (evs, Exported x)"
    by (rule afterFetch_Exported [OF af])
  have ord: "ordered = sort_key (ts_key pl) messages"
    by (rule sortMessages_Some [OF o])
  have num: "list_all (\<lambda>m. parseFloat pl (msg_ts m) \<noteq> None) messages"
    using o by (simp add: sortMessages_def split: if_splits)
  from writeExport_Exported [OF wr]
  have l: "a_lines (x_contentText x) = allMessages st"
    "a_lines (x_contentMarkdown x) = allMessagesMarkdown st"
    by auto
  from threadPhase_subseq [OF t]
  have s: "subseq plain (a_lines (x_contentText x))"
    "subseq markdown (a_lines (x_contentMarkdown x))"
    "''--no-threads'' \<in> set args \<longrightarrow>
       a_lines (x_contentText x) = plain \<and> a_lines (x_contentMarkdown x) = markdown"
    by (simp_all add: l)
  have k: "\<forall>other. mset other = mset messages \<longrightarrow>
            map (ts_key pl) (sort_key (ts_key pl) other)
              = map (ts_key pl) (sort_key (ts_key pl) messages)"
    using sort_key_keys by blast
  have "sorted (map (ts_key pl) (sort_key (ts_key pl) messages))"
    by (rule sorted_sort_key)
  moreover have "mset (sort_key (ts_key pl) messages) = mset messages"
    by simp
  ultimately show ?thesis
    using pm num k p m s unfolding ord by blast
qed

theorem transcript_ascending_witness:
  "\<exists>x. exported (processExportAsync example_platform
             (world_of (two_pages [reply1] [parent1]) no_replies)
             [''2024-01-01'', ''2024-01-31'', ''--no-threads''] ''C1'') = Some x
     \<and> primaryMessages example_platform (world_of (two_pages [reply1] [parent1]) no_replies)
          [''2024-01-01'', ''2024-01-31'', ''--no-threads''] ''C1'' = Some [reply1, parent1]
     \<and> sort_key (ts_key example_platform) [reply1, parent1] = [parent1, reply1]
     \<and> a_lines (x_contentText x)
         = [''[2024-01-01 09:00:00] U1: hello'', ''[2024-01-01 09:01:00] U2: first'']"
proof -
  let ?w = "world_of (two_pages [reply1] [parent1]) no_replies"
  let ?args = "[''2024-01-01'', ''2024-01-31'', ''--no-threads'']"
  from two_pages_run obtain evs x where
    r: "processExportAsync example_platform ?w ?args ''C1'' = Some (evs, Exported x)"
    by blast
  then have ex: "exported (processExportAsync example_platform ?w ?args ''C1'') = Some x"
    by (simp add: exported_def)
  have so: "sort_key (ts_key example_platform) [reply1, parent1] = [parent1, reply1]"
    by (simp add: example_keys)
  from transcript_ascending [OF ex] two_pages_primary
  have "a_lines (x_contentText x)
         = [''[2024-01-01 09:00:00] U1: hello'', ''[2024-01-01 09:01:00] U2: first'']"
    by (auto simp: example_keys world_fields getUsersInfo_no_members example_lines reply1_rendered)
  with ex two_pages_primary so show ?thesis by blast
qed

end
